theory Spec2Isabelle
  imports Complex_Main
begin

section \<open>Values and exceptions\<close>

text \<open>
  A Python \<^verbatim>\<open>str\<close> is the list of its code points (integers), so every character of Unicode can occur
  in it; \<open>str\<close> gives the string of an ASCII literal.
\<close>

type_synonym pystr = "int list"

definition ascii :: "char \<Rightarrow> int" where
  "ascii c = of_char c"

definition str :: "string \<Rightarrow> pystr" where
  "str s = map ascii s"

text \<open>
  The chart description reaches the program as the value \<^verbatim>\<open>json.load\<close> returns: \<^verbatim>\<open>None\<close>,
  a bool, a number, a \<^verbatim>\<open>str\<close>, a \<^verbatim>\<open>list\<close> or a \<^verbatim>\<open>dict\<close> with string keys. A dict is an
  association list in insertion order, read with \<open>map_of\<close>; its keys are distinct, as the
  keys of a Python dict are. Python's \<^verbatim>\<open>int\<close> and \<^verbatim>\<open>float\<close> are one constructor: the program
  only compares, hashes and tests numbers for truth, and there \<^verbatim>\<open>1\<close> and \<^verbatim>\<open>1.0\<close> behave alike
  (the non-standard literals NaN and Infinity are left out).
\<close>

datatype json =
  JNull
  | JBool bool
  | JNum real
  | JStr pystr
  | JArr "json list"
  | JObj "(pystr \<times> json) list"

text \<open>
  The exceptions the program can end with. \<open>KeyError\<close> carries the key, which is always one
  of the program's literal keys; \<open>ValueError\<close> carries its message. The messages of errors
  raised inside the standard library are abridged.
\<close>

datatype error =
  KeyError string
  | ValueError pystr
  | TypeError
  | IndexError
  | AttributeError
  | OSError
  | UnicodeDecodeError
  | JSONDecodeError
  | RecursionError
  | MemoryError

text \<open>
  Sequencing: a statement that raised ends the function with its exception, otherwise
  the next statement runs with the value.
\<close>

definition then_do :: "error + 'a \<Rightarrow> ('a \<Rightarrow> error + 'b) \<Rightarrow> error + 'b" where
  "then_do r f = (case r of Inl e \<Rightarrow> Inl e | Inr x \<Rightarrow> f x)"

text \<open>\<^verbatim>\<open>obj[key]\<close> with a literal string key: only a dict can be subscripted so.\<close>

fun subscript :: "json \<Rightarrow> string \<Rightarrow> error + json" where
  "subscript (JObj kvs) k =
     (case map_of kvs (str k) of None \<Rightarrow> Inl (KeyError k) | Some v \<Rightarrow> Inr v)"
| "subscript v k = Inl TypeError"

text \<open>
  \<^verbatim>\<open>try: x = obj[key]\<close> \<^verbatim>\<open>except KeyError: x = default\<close>: only the \<^verbatim>\<open>KeyError\<close> is caught.
\<close>

definition subscript_or :: "json \<Rightarrow> string \<Rightarrow> json \<Rightarrow> error + json" where
  "subscript_or obj k dflt =
     (case subscript obj k of
        Inl (KeyError k') \<Rightarrow> Inr dflt
      | Inl e \<Rightarrow> Inl e
      | Inr v \<Rightarrow> Inr v)"

text \<open>
  \<^verbatim>\<open>for x in obj\<close>: a list gives its elements, a string its characters, a dict its keys;
  anything else is not iterable.
\<close>

fun py_iter :: "json \<Rightarrow> error + json list" where
  "py_iter (JArr xs) = Inr xs"
| "py_iter (JStr s) = Inr (map (\<lambda>c. JStr [c]) s)"
| "py_iter (JObj kvs) = Inr (map (\<lambda>kv. JStr (fst kv)) kvs)"
| "py_iter v = Inl TypeError"

text \<open>Truth value of an object, as \<^verbatim>\<open>if obj:\<close> tests it.\<close>

fun truthy :: "json \<Rightarrow> bool" where
  "truthy JNull = False"
| "truthy (JBool b) = b"
| "truthy (JNum r) = (r \<noteq> 0)"
| "truthy (JStr s) = (s \<noteq> [])"
| "truthy (JArr xs) = (xs \<noteq> [])"
| "truthy (JObj kvs) = (kvs \<noteq> [])"

text \<open>
  Lists and dicts are unhashable: using one as a dict key raises \<^verbatim>\<open>TypeError\<close>.
\<close>

fun hashable :: "json \<Rightarrow> bool" where
  "hashable (JArr xs) = False"
| "hashable (JObj kvs) = False"
| "hashable v = True"

text \<open>
  \<^verbatim>\<open>a == b\<close>. A bool is a number (\<^verbatim>\<open>True == 1\<close>); numbers compare by value; values of
  different kinds are unequal. For lists and dicts the comparison is the structural one.
\<close>

fun num_val :: "json \<Rightarrow> real option" where
  "num_val (JBool b) = Some (if b then 1 else 0)"
| "num_val (JNum r) = Some r"
| "num_val v = None"

definition py_eq :: "json \<Rightarrow> json \<Rightarrow> bool" where
  "py_eq a b =
     (case (num_val a, num_val b) of
        (Some x, Some y) \<Rightarrow> x = y
      | (None, None) \<Rightarrow> a = b
      | _ \<Rightarrow> False)"

text \<open>\<^verbatim>\<open>xs.index(x)\<close>: the position of the first element equal to \<open>x\<close>.\<close>

fun index :: "json list \<Rightarrow> json \<Rightarrow> error + nat" where
  "index [] x = Inl (ValueError (str ''x not in list''))"
| "index (y # ys) x =
     (if py_eq y x then Inr 0 else then_do (index ys x) (\<lambda>i. Inr (Suc i)))"

section \<open>The environment\<close>

text \<open>
  What the program takes from outside itself. \<open>files\<close> is the file system as
  \<^verbatim>\<open>open\<close> and \<^verbatim>\<open>read\<close> see it: the text of the file at a path, or the exception raised
  (\<^verbatim>\<open>OSError\<close> for a missing or unreadable file, \<^verbatim>\<open>UnicodeDecodeError\<close> for bytes that are
  no text, or any other). \<open>json_loads\<close> is the JSON parser: the value of a text, or the
  exception raised (\<^verbatim>\<open>JSONDecodeError\<close> for a text that is not JSON, \<^verbatim>\<open>RecursionError\<close>,
  \<^verbatim>\<open>ValueError\<close> or any other). \<open>digit_zeros\<close> is the table of decimal digits of the
  Unicode database: the database has the decimal digits of each script in a run of ten
  consecutive code points, zero to nine, and the table lists the code point of the zero of
  every run outside ASCII.
\<close>

record env =
  files :: "pystr \<Rightarrow> error + pystr"
  json_loads :: "pystr \<Rightarrow> error + json"
  digit_zeros :: "int list"

section \<open>Dates\<close>

text \<open>
  A \<^verbatim>\<open>datetime\<close>. The format \<^verbatim>\<open>%m-%Y\<close> sets year and month only, so the day is 1 and the
  time of day is midnight in every date the program holds; the time fields are left out.
\<close>

record datetime =
  year :: int
  month :: int
  day :: int

text \<open>Comparison of two dates, as Python compares their field tuples.\<close>

definition dt_less :: "datetime \<Rightarrow> datetime \<Rightarrow> bool" where
  "dt_less a b =
     (year a < year b \<or>
      (year a = year b \<and> (month a < month b \<or> (month a = month b \<and> day a < day b))))"

definition dt_le :: "datetime \<Rightarrow> datetime \<Rightarrow> bool" where
  "dt_le a b = (\<not> dt_less b a)"

text \<open>
  The proleptic Gregorian ordinal of the standard library's \<^verbatim>\<open>datetime\<close> module
  (\<^verbatim>\<open>_is_leap\<close>, \<^verbatim>\<open>_days_before_year\<close>, \<^verbatim>\<open>_days_before_month\<close>, \<^verbatim>\<open>_ymd2ord\<close>): day 1 is
  1 January of year 1.
\<close>

definition is_leap :: "int \<Rightarrow> bool" where
  "is_leap y = (y mod 4 = 0 \<and> (y mod 100 \<noteq> 0 \<or> y mod 400 = 0))"

definition days_before_year :: "int \<Rightarrow> int" where
  "days_before_year y = (y - 1) * 365 + (y - 1) div 4 - (y - 1) div 100 + (y - 1) div 400"

definition DAYS_BEFORE_MONTH :: "int list" where
  "DAYS_BEFORE_MONTH = [-1, 0, 31, 59, 90, 120, 151, 181, 212, 243, 273, 304, 334]"

definition days_before_month :: "int \<Rightarrow> int \<Rightarrow> int" where
  "days_before_month y m =
     DAYS_BEFORE_MONTH ! nat m + (if m > 2 \<and> is_leap y then 1 else 0)"

definition toordinal :: "datetime \<Rightarrow> int" where
  "toordinal d = days_before_year (year d) + days_before_month (year d) (month d) + day d"

text \<open>\<^verbatim>\<open>(e - s).days\<close> for two dates at midnight: the difference of the ordinals.\<close>

definition sub_days :: "datetime \<Rightarrow> datetime \<Rightarrow> int" where
  "sub_days e s = toordinal e - toordinal s"

subsection \<open>\<^verbatim>\<open>datetime.strptime(date_str, "%m-%Y")\<close>\<close>

text \<open>
  The library compiles the format to the regular expression
  \<^verbatim>\<open>(?P<m>1[0-2]|0[1-9]|[1-9])-(?P<Y>\d\d\d\d)\<close>, matches it at the start of the string,
  rejects the string when the match does not reach its end, and builds the date, which
  fails for year 0. So the leading zero of the month is optional. The classes of the month
  group are ASCII; \<^verbatim>\<open>\d\<close> is any decimal digit of Unicode, and \<^verbatim>\<open>int\<close> gives it its value.
\<close>

text \<open>
  The decimal value of a character: its distance from the zero of its run, the ASCII run
  first, then the runs of the table, which are outside ASCII.
\<close>

definition decimal :: "env \<Rightarrow> int \<Rightarrow> int option" where
  "decimal ev c =
     map_option (\<lambda>z. c - z)
       (find (\<lambda>z. z \<le> c \<and> c < z + 10)
          (ascii CHR ''0'' # filter (\<lambda>z. 128 \<le> z) (digit_zeros ev)))"

definition is_digit :: "env \<Rightarrow> int \<Rightarrow> bool" where
  "is_digit ev c = (decimal ev c \<noteq> None)"

definition digit_val :: "env \<Rightarrow> int \<Rightarrow> int" where
  "digit_val ev c = (case decimal ev c of None \<Rightarrow> 0 | Some v \<Rightarrow> v)"

text \<open>The ways the month group can match a prefix, in the order the alternatives are tried.\<close>

definition month_alternatives :: "env \<Rightarrow> pystr \<Rightarrow> (int \<times> pystr) list" where
  "month_alternatives ev s =
     (case s of
        c1 # c2 # rest \<Rightarrow>
          (if c1 = ascii CHR ''1'' \<and> c2 \<in> set (str ''012'')
           then [(10 + digit_val ev c2, rest)] else []) @
          (if c1 = ascii CHR ''0'' \<and> c2 \<in> set (str ''123456789'')
           then [(digit_val ev c2, rest)] else []) @
          (if c1 \<in> set (str ''123456789'') then [(digit_val ev c1, c2 # rest)] else [])
      | [c1] \<Rightarrow> (if c1 \<in> set (str ''123456789'') then [(digit_val ev c1, [])] else [])
      | [] \<Rightarrow> [])"

text \<open>The hyphen and the year group; what follows them is returned unconverted.\<close>

definition match_year :: "env \<Rightarrow> pystr \<Rightarrow> (int \<times> pystr) option" where
  "match_year ev s =
     (case s of
        h # a # b # c # d # rest \<Rightarrow>
          if h = ascii CHR ''-'' \<and> is_digit ev a \<and> is_digit ev b \<and> is_digit ev c \<and> is_digit ev d
          then Some (1000 * digit_val ev a + 100 * digit_val ev b + 10 * digit_val ev c +
                     digit_val ev d, rest)
          else None
      | _ \<Rightarrow> None)"

fun regex_match :: "env \<Rightarrow> (int \<times> pystr) list \<Rightarrow> (int \<times> int \<times> pystr) option" where
  "regex_match ev [] = None"
| "regex_match ev ((m, rest) # alts) =
     (case match_year ev rest of
        Some (y, unconverted) \<Rightarrow> Some (m, y, unconverted)
      | None \<Rightarrow> regex_match ev alts)"

text \<open>The two-digit alternatives of the month group, and the value of four year digits.\<close>

definition two_digit_month :: "int \<Rightarrow> int \<Rightarrow> bool" where
  "two_digit_month c1 c2 =
     ((c1 = ascii CHR ''1'' \<and> c2 \<in> set (str ''012'')) \<or>
      (c1 = ascii CHR ''0'' \<and> c2 \<in> set (str ''123456789'')))"

definition year_of :: "env \<Rightarrow> int \<Rightarrow> int \<Rightarrow> int \<Rightarrow> int \<Rightarrow> int" where
  "year_of ev a b c d =
     1000 * digit_val ev a + 100 * digit_val ev b + 10 * digit_val ev c + digit_val ev d"

definition strptime :: "env \<Rightarrow> pystr \<Rightarrow> error + datetime" where
  "strptime ev s =
     (case regex_match ev (month_alternatives ev s) of
        None \<Rightarrow> Inl (ValueError (str ''time data does not match format''))
      | Some (m, y, unconverted) \<Rightarrow>
          if unconverted \<noteq> [] then Inl (ValueError (str ''unconverted data remains''))
          else if y < 1 then Inl (ValueError (str ''year is out of range''))
          else Inr \<lparr>year = y, month = m, day = 1\<rparr>)"

section \<open>Package\<close>

record package =
  pkg_label :: json
  pkg_start :: datetime
  pkg_end :: datetime
  pkg_milestones :: "datetime list"
  pkg_color :: json
  pkg_legend :: json

definition DEFCOLOR :: json where
  "DEFCOLOR = JStr (str ''#32AEE0'')"

text \<open>
  \<^verbatim>\<open>Package._parse_date\<close>. A \<^verbatim>\<open>ValueError\<close> of \<^verbatim>\<open>strptime\<close> is replaced by one that names the
  string; the \<^verbatim>\<open>TypeError\<close> for an argument that is no string is not caught.
\<close>

fun parse_date :: "env \<Rightarrow> json \<Rightarrow> error + datetime" where
  "parse_date ev (JStr s) =
     (case strptime ev s of
        Inl (ValueError msg) \<Rightarrow>
          Inl (ValueError (str ''Date format for '' @ s @ str '' should be MM-YYYY''))
      | Inl e \<Rightarrow> Inl e
      | Inr d \<Rightarrow> Inr d)"
| "parse_date ev v = Inl TypeError"

text \<open>The list comprehension over the milestones: the first failure ends it.\<close>

fun parse_dates :: "env \<Rightarrow> json list \<Rightarrow> error + datetime list" where
  "parse_dates ev [] = Inr []"
| "parse_dates ev (m # ms) =
     then_do (parse_date ev m) (\<lambda>d. then_do (parse_dates ev ms) (\<lambda>ds. Inr (d # ds)))"

text \<open>
  \<^verbatim>\<open>Package.__init__\<close>, statement by statement. Only the \<^verbatim>\<open>KeyError\<close> of the three optional
  keys is caught; \<^verbatim>\<open>None\<close> is \<open>JNull\<close>.
\<close>

definition pkg_milestones_of :: "env \<Rightarrow> json \<Rightarrow> error + datetime list" where
  "pkg_milestones_of ev pkg =
     (case subscript pkg ''milestones'' of
        Inl (KeyError k) \<Rightarrow> Inr []
      | Inl e \<Rightarrow> Inl e
      | Inr ms \<Rightarrow> then_do (py_iter ms) (parse_dates ev))"

definition Package :: "env \<Rightarrow> json \<Rightarrow> error + package" where
  "Package ev pkg =
     then_do (subscript pkg ''label'') (\<lambda>lbl.
     then_do (subscript pkg ''start'') (\<lambda>sv.
     then_do (parse_date ev sv) (\<lambda>s.
     then_do (subscript pkg ''end'') (\<lambda>ev'.
     then_do (parse_date ev ev') (\<lambda>e.
     if dt_less e s then Inl (ValueError (str ''Cannot end before started''))
     else
     then_do (pkg_milestones_of ev pkg) (\<lambda>ms.
     then_do (subscript_or pkg ''color'' DEFCOLOR) (\<lambda>c.
     then_do (subscript_or pkg ''legend'' JNull) (\<lambda>l.
     Inr \<lparr>pkg_label = lbl, pkg_start = s, pkg_end = e, pkg_milestones = ms,
          pkg_color = c, pkg_legend = l\<rparr>))))))))"

section \<open>Gantt\<close>

text \<open>
  \<^verbatim>\<open>with open(self.dataFile) as fh: data = json.load(fh)\<close>: whatever \<^verbatim>\<open>open\<close>, \<^verbatim>\<open>read\<close> or
  the parser raises ends the loading.
\<close>

definition load_json :: "env \<Rightarrow> pystr \<Rightarrow> error + json" where
  "load_json ev path = then_do (files ev path) (json_loads ev)"

text \<open>
  The attributes \<^verbatim>\<open>_loadData\<close> sets, and those \<^verbatim>\<open>_procData\<close> adds. The dict \<open>milestones\<close> is
  an association list in insertion order.
\<close>

record gantt_data =
  dataFile :: pystr
  title :: json
  packages :: "package list"
  labels :: "json list"
  milestones :: "(json \<times> datetime list) list"
  xlabel :: json
  xticks :: json

record gantt = gantt_data +
  nPackages :: nat
  start :: "int list"
  end' :: "int list"
  durations :: "int list"
  yPos :: "int list"

text \<open>\<^verbatim>\<open>for pkg in data["packages"]: self.packages.append(Package(pkg))\<close>\<close>

fun make_packages :: "env \<Rightarrow> json list \<Rightarrow> error + package list" where
  "make_packages ev [] = Inr []"
| "make_packages ev (r # rs) =
     then_do (Package ev r) (\<lambda>p. then_do (make_packages ev rs) (\<lambda>ps. Inr (p # ps)))"

text \<open>\<^verbatim>\<open>[pkg["label"] for pkg in data["packages"]]\<close>\<close>

fun collect_labels :: "json list \<Rightarrow> error + json list" where
  "collect_labels [] = Inr []"
| "collect_labels (r # rs) =
     then_do (subscript r ''label'') (\<lambda>l. then_do (collect_labels rs) (\<lambda>ls. Inr (l # ls)))"

text \<open>
  \<^verbatim>\<open>d[k] = v\<close>: an unhashable key raises; a key equal to one already there keeps that key
  and its place and replaces the value.
\<close>

fun dict_set :: "(json \<times> 'v) list \<Rightarrow> json \<Rightarrow> 'v \<Rightarrow> (json \<times> 'v) list" where
  "dict_set [] k v = [(k, v)]"
| "dict_set ((k', v') # d) k v =
     (if py_eq k' k then (k', v) # d else (k', v') # dict_set d k v)"

definition setitem :: "(json \<times> 'v) list \<Rightarrow> json \<Rightarrow> 'v \<Rightarrow> error + (json \<times> 'v) list" where
  "setitem d k v = (if hashable k then Inr (dict_set d k v) else Inl TypeError)"

text \<open>
  The loop that fills \<^verbatim>\<open>self.milestones\<close>. Every \<^verbatim>\<open>Package\<close> object has the attribute
  \<^verbatim>\<open>milestones\<close> (the constructor sets it to the empty list when the key is absent), so
  \<^verbatim>\<open>pkg.milestones\<close> never raises the \<^verbatim>\<open>AttributeError\<close> the loop would pass over: the
  assignment runs for every package.
\<close>

fun build_milestones ::
  "(json \<times> datetime list) list \<Rightarrow> package list \<Rightarrow> error + (json \<times> datetime list) list" where
  "build_milestones d [] = Inr d"
| "build_milestones d (p # ps) =
     then_do (setitem d (pkg_label p) (pkg_milestones p)) (\<lambda>d'. build_milestones d' ps)"

definition loadData :: "env \<Rightarrow> pystr \<Rightarrow> error + gantt_data" where
  "loadData ev file =
     then_do (load_json ev file) (\<lambda>data.
     then_do (subscript data ''title'') (\<lambda>t.
     then_do (subscript data ''packages'') (\<lambda>recs.
     then_do (py_iter recs) (\<lambda>rs.
     then_do (make_packages ev rs) (\<lambda>pkgs.
     then_do (collect_labels rs) (\<lambda>lbls.
     then_do (build_milestones [] pkgs) (\<lambda>ms.
     then_do (subscript_or data ''xlabel'' (JStr [])) (\<lambda>xl.
     then_do (subscript_or data ''xticks'' (JArr [])) (\<lambda>xt.
     Inr \<lparr>dataFile = file, title = t, packages = pkgs, labels = lbls, milestones = ms,
          xlabel = xl, xticks = xt\<rparr>)))))))))"

text \<open>\<^verbatim>\<open>xs[i] = v\<close> on a list: out of range raises.\<close>

definition list_set :: "'a list \<Rightarrow> nat \<Rightarrow> 'a \<Rightarrow> error + 'a list" where
  "list_set xs i v = (if i < length xs then Inr (xs[i := v]) else Inl IndexError)"

text \<open>
  The loop of \<^verbatim>\<open>_procData\<close> that stores each package's dates at the index of its label;
  \<open>None\<close> is a slot still holding \<^verbatim>\<open>None\<close>.
\<close>

fun place_dates ::
  "json list \<Rightarrow> package list \<Rightarrow> datetime option list \<Rightarrow> datetime option list \<Rightarrow>
   error + (datetime option list \<times> datetime option list)" where
  "place_dates lbls [] st en = Inr (st, en)"
| "place_dates lbls (p # ps) st en =
     then_do (index lbls (pkg_label p)) (\<lambda>idx.
     then_do (list_set st idx (Some (pkg_start p))) (\<lambda>st'.
     then_do (list_set en idx (Some (pkg_end p))) (\<lambda>en'.
     place_dates lbls ps st' en')))"

text \<open>
  \<^verbatim>\<open>[(e - s).days for s, e in zip(self.start, self.end)]\<close>: subtracting with \<^verbatim>\<open>None\<close>
  raises \<^verbatim>\<open>TypeError\<close>.
\<close>

fun compute_durations :: "(datetime option \<times> datetime option) list \<Rightarrow> error + int list" where
  "compute_durations [] = Inr []"
| "compute_durations ((Some s, Some e) # r) =
     then_do (compute_durations r) (\<lambda>ds. Inr (sub_days e s # ds))"
| "compute_durations (se # r) = Inl TypeError"

text \<open>\<^verbatim>\<open>[s.toordinal() for s in self.start]\<close>: \<^verbatim>\<open>None\<close> has no such method.\<close>

fun ordinals :: "datetime option list \<Rightarrow> error + int list" where
  "ordinals [] = Inr []"
| "ordinals (Some d # r) = then_do (ordinals r) (\<lambda>os. Inr (toordinal d # os))"
| "ordinals (None # r) = Inl AttributeError"

text \<open>\<^verbatim>\<open>np.arange(n, 0, -1)\<close>: the integers \<open>n, n - 1, \<dots>, 1\<close>.\<close>

definition arange_down :: "nat \<Rightarrow> int list" where
  "arange_down n = map int (rev [1..<Suc n])"

definition procData :: "gantt_data \<Rightarrow> error + gantt" where
  "procData g =
     (let n = length (labels g) in
      then_do (place_dates (labels g) (packages g) (replicate n None) (replicate n None))
        (\<lambda>(st, en).
      then_do (compute_durations (zip st en)) (\<lambda>ds.
      then_do (ordinals st) (\<lambda>sto.
      then_do (ordinals en) (\<lambda>eno.
      Inr \<lparr>dataFile = dataFile g, title = title g, packages = packages g,
           labels = labels g, milestones = milestones g, xlabel = xlabel g,
           xticks = xticks g, nPackages = n, start = sto, end' = eno, durations = ds,
           yPos = arange_down n\<rparr>)))))"

text \<open>\<^verbatim>\<open>Gantt.__init__\<close>\<close>

definition Gantt :: "env \<Rightarrow> pystr \<Rightarrow> error + gantt" where
  "Gantt ev file = then_do (loadData ev file) procData"

section \<open>Rendering\<close>

text \<open>
  The plotting library is outside the program. The figure is the record of what the
  program asks of it: the bars of \<^verbatim>\<open>plt.barh\<close> (slot, width, left edge, colour), the label
  \<^verbatim>\<open>set_label\<close> gave each bar (\<open>None\<close> while it has none), the axis limits, the ticks, the
  title, the points of \<^verbatim>\<open>plt.scatter\<close>, and whether \<^verbatim>\<open>ax.legend\<close> was called. The calls
  themselves are taken to succeed.
\<close>

record plot =
  bars :: "(int \<times> int \<times> int \<times> json) list"
  bar_labels :: "json option list"
  xlim :: "(int \<times> int) option"
  ylim :: "(real \<times> real) option"
  yticks :: "(int list \<times> json list) option"
  plot_title :: "json option"
  plot_xlabel :: "json option"
  plot_xticks :: "(int list \<times> json) option"
  scatter :: "(int list \<times> int list) option"
  legend_shown :: bool

text \<open>
  \<^verbatim>\<open>[datetime.strptime(tick, "%m-%Y").toordinal() for tick in self.xticks]\<close>: here the
  errors of \<^verbatim>\<open>strptime\<close> are not caught.
\<close>

fun tick_ordinals :: "env \<Rightarrow> json list \<Rightarrow> error + int list" where
  "tick_ordinals ev [] = Inr []"
| "tick_ordinals ev (JStr s # ts) =
     then_do (strptime ev s) (\<lambda>d. then_do (tick_ordinals ev ts) (\<lambda>os. Inr (toordinal d # os)))"
| "tick_ordinals ev (t # ts) = Inl TypeError"

text \<open>\<^verbatim>\<open>Gantt.format\<close>. \<^verbatim>\<open>min\<close> and \<^verbatim>\<open>max\<close> of an empty list raise \<^verbatim>\<open>ValueError\<close>.\<close>

definition format :: "env \<Rightarrow> gantt \<Rightarrow> plot \<Rightarrow> error + plot" where
  "format ev g p =
     (if start g = [] then Inl (ValueError (str ''min() arg is an empty sequence''))
      else if end' g = [] then Inl (ValueError (str ''max() arg is an empty sequence''))
      else
        let p1 = p\<lparr>xlim := Some (Min (set (start g)), Max (set (end' g))),
                   ylim := Some (1 / 2, real (nPackages g) + 1 / 2),
                   yticks := Some (yPos g, labels g),
                   plot_title := Some (title g)\<rparr>;
            p2 = (if truthy (xlabel g) then p1\<lparr>plot_xlabel := Some (xlabel g)\<rparr> else p1)
        in if truthy (xticks g)
           then then_do (py_iter (xticks g)) (\<lambda>ts.
                then_do (tick_ordinals ev ts) (\<lambda>os.
                Inr (p2\<lparr>plot_xticks := Some (os, xticks g)\<rparr>)))
           else Inr p2)"

text \<open>\<^verbatim>\<open>arr[i]\<close>: out of range raises.\<close>

definition getitem :: "'a list \<Rightarrow> nat \<Rightarrow> error + 'a" where
  "getitem xs i = (if i < length xs then Inr (xs ! i) else Inl IndexError)"

text \<open>
  \<^verbatim>\<open>Gantt.add_milestones\<close>: the inner loop over the dates of one key, the outer loop over
  the keys, each point as (x, y).
\<close>

fun key_points :: "gantt \<Rightarrow> json \<Rightarrow> datetime list \<Rightarrow> error + (int \<times> int) list" where
  "key_points g k [] = Inr []"
| "key_points g k (v # vs) =
     then_do (index (labels g) k) (\<lambda>i.
     then_do (getitem (yPos g) i) (\<lambda>y.
     then_do (key_points g k vs) (\<lambda>r.
     Inr ((toordinal v, y) # r))))"

fun all_points :: "gantt \<Rightarrow> (json \<times> datetime list) list \<Rightarrow> error + (int \<times> int) list" where
  "all_points g [] = Inr []"
| "all_points g ((k, vs) # d) =
     then_do (key_points g k vs) (\<lambda>a. then_do (all_points g d) (\<lambda>b. Inr (a @ b)))"

definition add_milestones :: "gantt \<Rightarrow> plot \<Rightarrow> error + plot" where
  "add_milestones g p =
     (if milestones g = [] then Inr p
      else then_do (all_points g (milestones g)) (\<lambda>pts.
           Inr (p\<lparr>scatter := Some (map fst pts, map snd pts)\<rparr>)))"

text \<open>
  \<^verbatim>\<open>Gantt.add_legend\<close>: the loop gives the bar at the index of the package's label the
  package's legend and counts; \<^verbatim>\<open>ax.legend\<close> is called when the count is positive.
\<close>

fun label_bars ::
  "json list \<Rightarrow> package list \<Rightarrow> json option list \<Rightarrow> nat \<Rightarrow> error + (json option list \<times> nat)" where
  "label_bars lbls [] bl cnt = Inr (bl, cnt)"
| "label_bars lbls (p # ps) bl cnt =
     (if truthy (pkg_legend p)
      then then_do (index lbls (pkg_label p)) (\<lambda>idx.
           then_do (list_set bl idx (Some (pkg_legend p))) (\<lambda>bl'.
           label_bars lbls ps bl' (cnt + 1)))
      else label_bars lbls ps bl cnt)"

definition add_legend :: "gantt \<Rightarrow> plot \<Rightarrow> error + plot" where
  "add_legend g p =
     then_do (label_bars (labels g) (packages g) (bar_labels p) 0) (\<lambda>(bl, cnt).
     Inr (p\<lparr>bar_labels := bl, legend_shown := (if cnt > 0 then True else legend_shown p)\<rparr>))"

text \<open>\<^verbatim>\<open>Gantt.render\<close>: the bars, then the three steps in order.\<close>

definition barh :: "gantt \<Rightarrow> plot" where
  "barh g =
     \<lparr>bars = zip (yPos g) (zip (durations g) (zip (start g) (map pkg_color (packages g)))),
      bar_labels = replicate (length (yPos g)) None,
      xlim = None, ylim = None, yticks = None, plot_title = None, plot_xlabel = None,
      plot_xticks = None, scatter = None, legend_shown = False\<rparr>"

definition render :: "env \<Rightarrow> gantt \<Rightarrow> error + plot" where
  "render ev g =
     then_do (format ev g (barh g)) (\<lambda>p1.
     then_do (add_milestones g p1) (\<lambda>p2.
     add_legend g p2))"

section \<open>Notions of the specification\<close>

text \<open>
  The specification names three kinds of failure. \<open>DataError\<close>: the input file is missing
  or unreadable, is not valid JSON, or lacks a required top-level key; in the program
  these are \<^verbatim>\<open>OSError\<close>, \<^verbatim>\<open>UnicodeDecodeError\<close>, \<^verbatim>\<open>JSONDecodeError\<close> and \<^verbatim>\<open>KeyError\<close>.
\<close>

fun DataError :: "error \<Rightarrow> bool" where
  "DataError OSError = True"
| "DataError UnicodeDecodeError = True"
| "DataError JSONDecodeError = True"
| "DataError (KeyError k) = True"
| "DataError e = False"

text \<open>Loading, and with it the construction of the chart, fails with the data error \<open>e\<close>.\<close>

definition load_fails :: "env \<Rightarrow> pystr \<Rightarrow> error \<Rightarrow> bool" where
  "load_fails ev file e = (loadData ev file = Inl e \<and> Gantt ev file = Inl e \<and> DataError e)"

text \<open>A document has a top-level key when it is an object with that key.\<close>

fun is_object :: "json \<Rightarrow> bool" where
  "is_object (JObj kvs) = True"
| "is_object v = False"

fun has_key :: "json \<Rightarrow> string \<Rightarrow> bool" where
  "has_key (JObj kvs) k = (map_of kvs (str k) \<noteq> None)"
| "has_key v k = False"

text \<open>\<open>FormatError\<close>: the \<^verbatim>\<open>ValueError\<close> of \<^verbatim>\<open>_parse_date\<close>, whose message names the string.\<close>

definition FormatError :: "pystr \<Rightarrow> error" where
  "FormatError s = ValueError (str ''Date format for '' @ s @ str '' should be MM-YYYY'')"

text \<open>\<open>ValidationError\<close>: the \<^verbatim>\<open>ValueError\<close> of the constructor for an end before the start.\<close>

definition ValidationError :: error where
  "ValidationError = ValueError (str ''Cannot end before started'')"

text \<open>
  The pattern \<open>MM-YYYY\<close>: two digits, a hyphen, four digits, a digit being any decimal
  digit.
\<close>

definition MM_YYYY :: "env \<Rightarrow> pystr \<Rightarrow> bool" where
  "MM_YYYY ev s =
     (length s = 7 \<and> is_digit ev (s ! 0) \<and> is_digit ev (s ! 1) \<and> s ! 2 = ascii CHR ''-'' \<and>
      is_digit ev (s ! 3) \<and> is_digit ev (s ! 4) \<and> is_digit ev (s ! 5) \<and> is_digit ev (s ! 6))"

text \<open>
  The date strings: a month from 01 to 12 in ASCII digits, a hyphen, and a year of four
  decimal digits other than 0000; and the same with a month from 1 to 9 in one digit.
\<close>

definition ascii_digit :: "int \<Rightarrow> bool" where
  "ascii_digit c = (c \<in> set (str ''0123456789''))"

definition date_MM_YYYY :: "env \<Rightarrow> pystr \<Rightarrow> bool" where
  "date_MM_YYYY ev s =
     (MM_YYYY ev s \<and> ascii_digit (s ! 0) \<and> ascii_digit (s ! 1) \<and>
      1 \<le> 10 * digit_val ev (s ! 0) + digit_val ev (s ! 1) \<and>
      10 * digit_val ev (s ! 0) + digit_val ev (s ! 1) \<le> 12 \<and>
      1 \<le> year_of ev (s ! 3) (s ! 4) (s ! 5) (s ! 6))"

definition date_M_YYYY :: "env \<Rightarrow> pystr \<Rightarrow> bool" where
  "date_M_YYYY ev s =
     (length s = 6 \<and> ascii_digit (s ! 0) \<and> 1 \<le> digit_val ev (s ! 0) \<and>
      s ! 1 = ascii CHR ''-'' \<and>
      is_digit ev (s ! 2) \<and> is_digit ev (s ! 3) \<and> is_digit ev (s ! 4) \<and> is_digit ev (s ! 5) \<and>
      1 \<le> year_of ev (s ! 2) (s ! 3) (s ! 4) (s ! 5))"

text \<open>A string of ASCII characters only.\<close>

definition is_ascii :: "pystr \<Rightarrow> bool" where
  "is_ascii s = list_all (\<lambda>c. c < 128) s"

text \<open>The character of a decimal digit.\<close>

definition digit_char :: "int \<Rightarrow> int" where
  "digit_char n = 48 + n"

text \<open>
  A character with a decimal digit replaced by the ASCII digit of the same value: what
  becomes of the characters of a date string when the date is written in ASCII.
\<close>

definition to_ascii :: "env \<Rightarrow> int \<Rightarrow> int" where
  "to_ascii ev c = (if is_digit ev c then digit_char (digit_val ev c) else c)"

text \<open>
  Modelled from the spec: formatting a date back as \<open>MM-YYYY\<close>. The program has no function
  that formats a date; this one writes the month with two digits and the year with four.
\<close>

definition format_date :: "datetime \<Rightarrow> pystr" where
  "format_date d =
     [digit_char (month d div 10), digit_char (month d mod 10), ascii CHR ''-'',
      digit_char (year d div 1000), digit_char (year d div 100 mod 10),
      digit_char (year d div 10 mod 10), digit_char (year d mod 10)]"

text \<open>
  The calendar, to measure durations against: the number of days of a month, the total
  length of \<open>k\<close> consecutive months beginning with month \<open>m\<close> of year \<open>y\<close>, and with them the
  number of calendar days from the first day of one month to the first day of another.
\<close>

definition days_in_month :: "int \<Rightarrow> int \<Rightarrow> int" where
  "days_in_month y m =
     (if m = 2 then (if is_leap y then 29 else 28)
      else if m = 4 \<or> m = 6 \<or> m = 9 \<or> m = 11 then 30 else 31)"

fun days_of_months :: "int \<Rightarrow> int \<Rightarrow> nat \<Rightarrow> int" where
  "days_of_months y m 0 = 0"
| "days_of_months y m (Suc k) =
     days_in_month y m +
     (if m = 12 then days_of_months (y + 1) 1 k else days_of_months y (m + 1) k)"

definition calendar_days :: "datetime \<Rightarrow> datetime \<Rightarrow> int" where
  "calendar_days s e =
     days_of_months (year s) (month s) (nat (12 * year e + month e - (12 * year s + month s)))"

text \<open>
  Labels that are pairwise different under \<^verbatim>\<open>==\<close>: the uniqueness the data model assumes
  of the labels of a document.
\<close>

fun py_distinct :: "json list \<Rightarrow> bool" where
  "py_distinct [] = True"
| "py_distinct (x # xs) = (list_all (\<lambda>y. \<not> py_eq x y) xs \<and> py_distinct xs)"

section \<open>Sample inputs\<close>

text \<open>
  An environment whose only file is \<open>path\<close>, holding a text whose JSON value is \<open>data\<close>;
  of the decimal digits outside ASCII it knows the Arabic-Indic and the fullwidth ones.
\<close>

definition env_with :: "pystr \<Rightarrow> json \<Rightarrow> env" where
  "env_with path data =
     \<lparr>files = (\<lambda>p. if p = path then Inr (str ''doc'') else Inl OSError),
      json_loads = (\<lambda>t. if t = str ''doc'' then Inr data else Inl JSONDecodeError),
      digit_zeros = [1632, 65296]\<rparr>"

text \<open>An environment whose only file is \<open>path\<close>, holding a text that is not valid JSON.\<close>

definition env_malformed :: "pystr \<Rightarrow> env" where
  "env_malformed path =
     \<lparr>files = (\<lambda>p. if p = path then Inr (str ''{'') else Inl OSError),
      json_loads = (\<lambda>t. Inl JSONDecodeError), digit_zeros = [1632, 65296]\<rparr>"

definition sample :: pystr where
  "sample = str ''sample.json''"

text \<open>The package and the document of the specification's first end-to-end scenario.\<close>

definition pkg_A :: json where
  "pkg_A =
     JObj [(str ''label'', JStr (str ''A'')), (str ''start'', JStr (str ''01-2021'')),
           (str ''end'', JStr (str ''03-2021''))]"

definition doc_A :: json where
  "doc_A = JObj [(str ''title'', JStr (str ''T'')), (str ''packages'', JArr [pkg_A])]"

text \<open>
  Packages with a one-digit month, with year and month swapped, with an end before the
  start, and with the year in fullwidth digits.
\<close>

definition pkg_short :: json where
  "pkg_short =
     JObj [(str ''label'', JStr (str ''A'')), (str ''start'', JStr (str ''1-2021'')),
           (str ''end'', JStr (str ''3-2021''))]"

definition pkg_swapped :: json where
  "pkg_swapped =
     JObj [(str ''label'', JStr (str ''A'')), (str ''start'', JStr (str ''2020-01'')),
           (str ''end'', JStr (str ''03-2021''))]"

definition pkg_bad_end :: json where
  "pkg_bad_end =
     JObj [(str ''label'', JStr (str ''A'')), (str ''start'', JStr (str ''01-2021'')),
           (str ''end'', JStr (str ''2020-01''))]"

definition pkg_bad_milestone :: json where
  "pkg_bad_milestone =
     JObj [(str ''label'', JStr (str ''A'')), (str ''start'', JStr (str ''01-2021'')),
           (str ''end'', JStr (str ''03-2021'')),
           (str ''milestones'', JArr [JStr (str ''02-2021''), JStr (str ''2020-01'')])]"

definition pkg_late :: json where
  "pkg_late =
     JObj [(str ''label'', JStr (str ''B'')), (str ''start'', JStr (str ''03-2021'')),
           (str ''end'', JStr (str ''01-2021''))]"

definition fullwidth_01_2021 :: pystr where
  "fullwidth_01_2021 = str ''01-'' @ [65298, 65296, 65298, 65297]"

text \<open>
  A document with two packages, the second with a milestone and a legend; one with two
  packages of the same label; one without packages; one that is a list.
\<close>

definition pkg_B :: json where
  "pkg_B =
     JObj [(str ''label'', JStr (str ''B'')), (str ''start'', JStr (str ''02-2021'')),
           (str ''end'', JStr (str ''03-2021'')),
           (str ''milestones'', JArr [JStr (str ''02-2021'')]),
           (str ''legend'', JStr (str ''second''))]"

definition doc_AB :: json where
  "doc_AB = JObj [(str ''title'', JStr (str ''T'')), (str ''packages'', JArr [pkg_A, pkg_B])]"

definition doc_AA :: json where
  "doc_AA = JObj [(str ''title'', JStr (str ''T'')), (str ''packages'', JArr [pkg_A, pkg_A])]"

definition doc_empty :: json where
  "doc_empty = JObj [(str ''title'', JStr (str ''T'')), (str ''packages'', JArr [])]"

definition doc_list :: json where
  "doc_list = JArr [JNum 1, JNum 2]"

text \<open>Documents without a title and without packages, and the path of no file.\<close>

definition doc_no_title :: json where
  "doc_no_title = JObj [(str ''packages'', JArr [pkg_A])]"

definition doc_no_packages :: json where
  "doc_no_packages = JObj [(str ''title'', JStr (str ''T''))]"

definition other :: pystr where
  "other = str ''other.json''"

text \<open>What the program computes for these documents.\<close>

definition package_A :: package where
  "package_A =
     \<lparr>pkg_label = JStr (str ''A''), pkg_start = \<lparr>year = 2021, month = 1, day = 1\<rparr>,
      pkg_end = \<lparr>year = 2021, month = 3, day = 1\<rparr>, pkg_milestones = [],
      pkg_color = JStr (str ''#32AEE0''), pkg_legend = JNull\<rparr>"

definition package_B :: package where
  "package_B =
     \<lparr>pkg_label = JStr (str ''B''), pkg_start = \<lparr>year = 2021, month = 2, day = 1\<rparr>,
      pkg_end = \<lparr>year = 2021, month = 3, day = 1\<rparr>,
      pkg_milestones = [\<lparr>year = 2021, month = 2, day = 1\<rparr>],
      pkg_color = JStr (str ''#32AEE0''), pkg_legend = JStr (str ''second'')\<rparr>"

definition data_A :: gantt_data where
  "data_A =
     \<lparr>dataFile = sample, title = JStr (str ''T''), packages = [package_A],
      labels = [JStr (str ''A'')], milestones = [(JStr (str ''A''), [])],
      xlabel = JStr [], xticks = JArr []\<rparr>"

definition gantt_A :: gantt where
  "gantt_A =
     \<lparr>dataFile = sample, title = JStr (str ''T''), packages = [package_A],
      labels = [JStr (str ''A'')], milestones = [(JStr (str ''A''), [])],
      xlabel = JStr [], xticks = JArr [], nPackages = 1, start = [737791],
      end' = [737850], durations = [59], yPos = [1]\<rparr>"

definition data_AB :: gantt_data where
  "data_AB =
     \<lparr>dataFile = sample, title = JStr (str ''T''), packages = [package_A, package_B],
      labels = [JStr (str ''A''), JStr (str ''B'')],
      milestones = [(JStr (str ''A''), []),
                    (JStr (str ''B''), [\<lparr>year = 2021, month = 2, day = 1\<rparr>])],
      xlabel = JStr [], xticks = JArr []\<rparr>"

definition gantt_AB :: gantt where
  "gantt_AB =
     \<lparr>dataFile = sample, title = JStr (str ''T''), packages = [package_A, package_B],
      labels = [JStr (str ''A''), JStr (str ''B'')],
      milestones = [(JStr (str ''A''), []),
                    (JStr (str ''B''), [\<lparr>year = 2021, month = 2, day = 1\<rparr>])],
      xlabel = JStr [], xticks = JArr [], nPackages = 2, start = [737791, 737822],
      end' = [737850, 737850], durations = [59, 28], yPos = [2, 1]\<rparr>"

definition data_AA :: gantt_data where
  "data_AA =
     \<lparr>dataFile = sample, title = JStr (str ''T''), packages = [package_A, package_A],
      labels = [JStr (str ''A''), JStr (str ''A'')], milestones = [(JStr (str ''A''), [])],
      xlabel = JStr [], xticks = JArr []\<rparr>"

definition gantt_empty :: gantt where
  "gantt_empty =
     \<lparr>dataFile = sample, title = JStr (str ''T''), packages = [], labels = [],
      milestones = [], xlabel = JStr [], xticks = JArr [], nPackages = 0, start = [],
      end' = [], durations = [], yPos = []\<rparr>"

definition plot_AB :: plot where
  "plot_AB =
     \<lparr>bars = [(2, 59, 737791, JStr (str ''#32AEE0'')), (1, 28, 737822, JStr (str ''#32AEE0''))],
      bar_labels = [None, Some (JStr (str ''second''))],
      xlim = Some (737791, 737850), ylim = Some (1 / 2, 5 / 2),
      yticks = Some ([2, 1], [JStr (str ''A''), JStr (str ''B'')]),
      plot_title = Some (JStr (str ''T'')), plot_xlabel = None,
      plot_xticks = None, scatter = Some ([737822], [1]),
      legend_shown = True\<rparr>"

section \<open>Sequencing\<close>

lemma then_do_Inl [simp]: "then_do (Inl e) f = Inl e"
  by (simp add: then_do_def)

lemma then_do_Inr [simp]: "then_do (Inr x) f = f x"
  by (simp add: then_do_def)

lemma then_do_eq_Inr: "then_do r f = Inr y \<longleftrightarrow> (\<exists>x. r = Inr x \<and> f x = Inr y)"
  by (cases r) simp_all

section \<open>Parsing dates\<close>

subsection \<open>Digits\<close>

lemma ascii_chars:
  "ascii CHR ''-'' = 45" "ascii CHR ''0'' = 48" "ascii CHR ''1'' = 49"
  by (simp_all add: ascii_def)

lemma in_digits: "c \<in> set (str ''0123456789'') \<longleftrightarrow> 48 \<le> c \<and> c \<le> 57"
proof
  assume "c \<in> set (str ''0123456789'')"
  then show "48 \<le> c \<and> c \<le> 57" by (auto simp: str_def ascii_def)
next
  assume "48 \<le> c \<and> c \<le> 57"
  then have "c = 48 \<or> c = 49 \<or> c = 50 \<or> c = 51 \<or> c = 52 \<or> c = 53 \<or> c = 54 \<or> c = 55 \<or>
    c = 56 \<or> c = 57" by arith
  then show "c \<in> set (str ''0123456789'')" by (elim disjE) (simp_all add: str_def ascii_def)
qed

lemma in_nonzero: "c \<in> set (str ''123456789'') \<longleftrightarrow> 49 \<le> c \<and> c \<le> 57"
proof
  assume "c \<in> set (str ''123456789'')"
  then show "49 \<le> c \<and> c \<le> 57" by (auto simp: str_def ascii_def)
next
  assume "49 \<le> c \<and> c \<le> 57"
  then have "c = 49 \<or> c = 50 \<or> c = 51 \<or> c = 52 \<or> c = 53 \<or> c = 54 \<or> c = 55 \<or>
    c = 56 \<or> c = 57" by arith
  then show "c \<in> set (str ''123456789'')" by (elim disjE) (simp_all add: str_def ascii_def)
qed

lemma in_012: "c \<in> set (str ''012'') \<longleftrightarrow> 48 \<le> c \<and> c \<le> 50"
proof
  assume "c \<in> set (str ''012'')"
  then show "48 \<le> c \<and> c \<le> 50" by (auto simp: str_def ascii_def)
next
  assume "48 \<le> c \<and> c \<le> 50"
  then have "c = 48 \<or> c = 49 \<or> c = 50" by arith
  then show "c \<in> set (str ''012'')" by (elim disjE) (simp_all add: str_def ascii_def)
qed

lemma find_SomeD: "find P xs = Some x \<Longrightarrow> x \<in> set xs \<and> P x"
  by (induction xs) (auto split: if_splits)

lemma decimal_ascii: "48 \<le> c \<Longrightarrow> c \<le> 57 \<Longrightarrow> decimal ev c = Some (c - 48)"
  by (simp add: decimal_def ascii_def)

lemma decimal_bounds:
  assumes "decimal ev c = Some v"
  shows "0 \<le> v \<and> v \<le> 9"
proof -
  from assms obtain z where z: "find (\<lambda>z. z \<le> c \<and> c < z + 10)
      (ascii CHR ''0'' # filter (\<lambda>z. 128 \<le> z) (digit_zeros ev)) = Some z"
    and v: "v = c - z" unfolding decimal_def by auto
  from z have "z \<le> c \<and> c < z + 10" unfolding find_Some_iff by blast
  with v show ?thesis by simp
qed

lemma is_digit_ascii:
  assumes "c < 128" "is_digit ev c"
  shows "48 \<le> c \<and> c \<le> 57"
proof -
  from assms(2) obtain z where z: "find (\<lambda>z. z \<le> c \<and> c < z + 10)
      (ascii CHR ''0'' # filter (\<lambda>z. 128 \<le> z) (digit_zeros ev)) = Some z"
    unfolding is_digit_def decimal_def by auto
  from find_SomeD [OF z]
  have m: "z \<in> set (ascii CHR ''0'' # filter (\<lambda>z. 128 \<le> z) (digit_zeros ev))"
    and r: "z \<le> c \<and> c < z + 10" by blast+
  from m have "z = 48 \<or> 128 \<le> z" by (auto simp: ascii_chars)
  with assms(1) r have "z = 48" by arith
  with r show ?thesis by simp
qed

lemma digit_val_bounds: "0 \<le> digit_val ev c \<and> digit_val ev c \<le> 9"
  using decimal_bounds [of ev c] by (cases "decimal ev c") (simp_all add: digit_val_def)

lemma digit_val_ascii:
  assumes "48 \<le> c" "c \<le> 57"
  shows "digit_val ev c = c - 48" "is_digit ev c"
  using decimal_ascii [OF assms] by (simp_all add: digit_val_def is_digit_def)

lemma digit_val_nonzero:
  "c \<in> set (str ''123456789'') \<Longrightarrow> 1 \<le> digit_val ev c \<and> digit_val ev c \<le> 9"
  using digit_val_ascii(1) [of c ev] by (simp add: in_nonzero)

lemma digit_char_val: "ascii_digit c \<Longrightarrow> digit_char (digit_val ev c) = c"
  using digit_val_ascii(1) [of c ev] by (simp add: ascii_digit_def in_digits digit_char_def)

lemma digit_val_char:
  assumes "0 \<le> n" "n \<le> 9"
  shows "digit_val ev (digit_char n) = n \<and> is_digit ev (digit_char n) \<and>
         ascii_digit (digit_char n)"
  using assms digit_val_ascii [of "48 + n" ev]
  by (simp add: digit_char_def ascii_digit_def in_digits)

lemma decimal_step:
  fixes k d :: int
  assumes "0 \<le> d" "d \<le> 9"
  shows "(10 * k + d) div 10 = k" "(10 * k + d) mod 10 = d"
  using assms by simp_all

lemma year_digits:
  shows "year_of ev a b c d div 1000 = digit_val ev a"
    "year_of ev a b c d div 100 mod 10 = digit_val ev b"
    "year_of ev a b c d div 10 mod 10 = digit_val ev c"
    "year_of ev a b c d mod 10 = digit_val ev d"
proof -
  define va vb vc vd where "va = digit_val ev a" and "vb = digit_val ev b"
    and "vc = digit_val ev c" and "vd = digit_val ev d"
  note bs = digit_val_bounds [of ev a, folded va_def] digit_val_bounds [of ev b, folded vb_def]
    digit_val_bounds [of ev c, folded vc_def] digit_val_bounds [of ev d, folded vd_def]
  define y where "y = year_of ev a b c d"
  have e1: "y = 10 * (100 * va + 10 * vb + vc) + vd"
    by (simp add: y_def year_of_def va_def vb_def vc_def vd_def)
  have d1: "y div 10 = 100 * va + 10 * vb + vc" and m1: "y mod 10 = vd"
    unfolding e1 using bs by (simp_all only: decimal_step)
  have e2: "100 * va + 10 * vb + vc = 10 * (10 * va + vb) + vc" by simp
  have "y div 100 = y div 10 div 10" by (simp add: div_mult2_eq [symmetric])
  then have d2: "y div 100 = 10 * va + vb"
    unfolding d1 e2 using bs by (simp only: decimal_step)
  have m2: "y div 10 mod 10 = vc"
    unfolding d1 e2 using bs by (simp only: decimal_step)
  have "y div 1000 = y div 100 div 10" by (simp add: div_mult2_eq [symmetric])
  then have d3: "y div 1000 = va"
    unfolding d2 using bs by (simp only: decimal_step)
  have m3: "y div 100 mod 10 = vb"
    unfolding d2 using bs by (simp only: decimal_step)
  show "year_of ev a b c d div 1000 = digit_val ev a"
    "year_of ev a b c d div 100 mod 10 = digit_val ev b"
    "year_of ev a b c d div 10 mod 10 = digit_val ev c"
    "year_of ev a b c d mod 10 = digit_val ev d"
    using d3 m3 m2 m1 by (simp_all only: y_def va_def vb_def vc_def vd_def)
qed

subsection \<open>The regular expression\<close>

lemma match_year_hyphen: "c \<noteq> ascii CHR ''-'' \<Longrightarrow> match_year ev (c # r) = None"
  by (simp add: match_year_def split: list.splits)

lemma match_year_Some:
  assumes "match_year ev r = Some (y, u)"
  shows "\<exists>a b c d. r = ascii CHR ''-'' # a # b # c # d # u \<and> is_digit ev a \<and> is_digit ev b \<and>
           is_digit ev c \<and> is_digit ev d \<and> y = year_of ev a b c d"
  using assms by (auto simp: match_year_def year_of_def split: list.splits if_splits)

lemma match_year_digits:
  assumes "is_digit ev a" "is_digit ev b" "is_digit ev c" "is_digit ev d"
  shows "match_year ev (ascii CHR ''-'' # a # b # c # d # u) = Some (year_of ev a b c d, u)"
  using assms by (simp add: match_year_def year_of_def)

lemma regex_match_single:
  "regex_match ev [(m, r)] = map_option (\<lambda>(y, u). (m, y, u)) (match_year ev r)"
  by (cases "match_year ev r") auto

lemma two_digit_month_iff:
  "two_digit_month c1 c2 \<longleftrightarrow> (c1 = 49 \<and> 48 \<le> c2 \<and> c2 \<le> 50) \<or> (c1 = 48 \<and> 49 \<le> c2 \<and> c2 \<le> 57)"
  by (simp add: two_digit_month_def in_012 in_nonzero ascii_chars)

lemma month_alternatives_Cons:
  "month_alternatives ev (c1 # c2 # r) =
     (if c1 = 49 \<and> 48 \<le> c2 \<and> c2 \<le> 50 then [(10 + digit_val ev c2, r)] else []) @
     (if c1 = 48 \<and> 49 \<le> c2 \<and> c2 \<le> 57 then [(digit_val ev c2, r)] else []) @
     (if 49 \<le> c1 \<and> c1 \<le> 57 then [(digit_val ev c1, c2 # r)] else [])"
  by (simp add: month_alternatives_def in_012 in_nonzero ascii_chars)

lemma regex_match_two:
  assumes "two_digit_month c1 c2"
  shows "regex_match ev (month_alternatives ev (c1 # c2 # r)) =
           map_option (\<lambda>(y, u). (10 * digit_val ev c1 + digit_val ev c2, y, u)) (match_year ev r)"
proof -
  have ne: "c2 \<noteq> ascii CHR ''-''" using assms unfolding two_digit_month_iff ascii_chars by auto
  have nm: "match_year ev (c2 # r) = None" using ne by (rule match_year_hyphen)
  from assms consider (a) "c1 = 49" "48 \<le> c2" "c2 \<le> 50" | (b) "c1 = 48" "49 \<le> c2" "c2 \<le> 57"
    unfolding two_digit_month_iff by blast
  then show ?thesis
  proof cases
    case a
    have v: "digit_val ev c1 = 1" using digit_val_ascii(1) [of c1 ev] a(1) by simp
    have "month_alternatives ev (c1 # c2 # r) = [(10 + digit_val ev c2, r), (1, c2 # r)]"
      unfolding month_alternatives_Cons using a v by simp
    then show ?thesis using nm v by (cases "match_year ev r") auto
  next
    case b
    have v: "digit_val ev c1 = 0" using digit_val_ascii(1) [of c1 ev] b(1) by simp
    have "month_alternatives ev (c1 # c2 # r) = [(digit_val ev c2, r)]"
      unfolding month_alternatives_Cons using b by simp
    then show ?thesis using v by (cases "match_year ev r") auto
  qed
qed

lemma regex_match_one:
  assumes "\<not> two_digit_month c1 c2"
  shows "regex_match ev (month_alternatives ev (c1 # c2 # r)) =
           (if c1 \<in> set (str ''123456789'')
            then map_option (\<lambda>(y, u). (digit_val ev c1, y, u)) (match_year ev (c2 # r))
            else None)"
proof (cases "c1 \<in> set (str ''123456789'')")
  case True
  then have "month_alternatives ev (c1 # c2 # r) = [(digit_val ev c1, c2 # r)]"
    using assms unfolding month_alternatives_Cons two_digit_month_iff in_nonzero by auto
  then show ?thesis using True by (simp only: regex_match_single if_True)
next
  case False
  then have "month_alternatives ev (c1 # c2 # r) = []"
    using assms unfolding month_alternatives_Cons two_digit_month_iff in_nonzero by auto
  then show ?thesis using False by (simp only: regex_match.simps if_False)
qed

lemma regex_match_short:
  "regex_match ev (month_alternatives ev []) = None"
  "regex_match ev (month_alternatives ev [c]) = None"
  by (simp_all add: month_alternatives_def match_year_def)

lemma two_digit_month_bounds:
  assumes "two_digit_month c1 c2"
  shows "1 \<le> 10 * digit_val ev c1 + digit_val ev c2 \<and>
         10 * digit_val ev c1 + digit_val ev c2 \<le> 12 \<and>
         ascii_digit c1 \<and> ascii_digit c2 \<and> is_digit ev c1 \<and> is_digit ev c2"
proof -
  from assms have r: "48 \<le> c1" "c1 \<le> 57" "48 \<le> c2" "c2 \<le> 57"
    unfolding two_digit_month_iff by auto
  note v = digit_val_ascii [OF r(1,2), of ev] digit_val_ascii [OF r(3,4), of ev]
  from assms v r show ?thesis
    unfolding two_digit_month_iff ascii_digit_def in_digits by auto
qed

subsection \<open>What \<^verbatim>\<open>strptime\<close> accepts\<close>

lemma strptime_Inr:
  assumes "strptime ev s = Inr dt"
  shows "(\<exists>c1 c2 a b c d. s = [c1, c2, ascii CHR ''-'', a, b, c, d] \<and> two_digit_month c1 c2 \<and>
            is_digit ev a \<and> is_digit ev b \<and> is_digit ev c \<and> is_digit ev d \<and>
            1 \<le> year_of ev a b c d \<and>
            dt = \<lparr>year = year_of ev a b c d,
                  month = 10 * digit_val ev c1 + digit_val ev c2, day = 1\<rparr>) \<or>
         (\<exists>c1 a b c d. s = [c1, ascii CHR ''-'', a, b, c, d] \<and> c1 \<in> set (str ''123456789'') \<and>
            is_digit ev a \<and> is_digit ev b \<and> is_digit ev c \<and> is_digit ev d \<and>
            1 \<le> year_of ev a b c d \<and>
            dt = \<lparr>year = year_of ev a b c d, month = digit_val ev c1, day = 1\<rparr>)"
proof -
  from assms obtain m y where rm: "regex_match ev (month_alternatives ev s) = Some (m, y, [])"
    and y: "1 \<le> y" and dt: "dt = \<lparr>year = y, month = m, day = 1\<rparr>"
    unfolding strptime_def by (auto split: option.splits if_splits)
  from rm obtain c1 c2 r where s: "s = c1 # c2 # r"
    using regex_match_short by (cases s rule: list.exhaust; cases "tl s") auto
  show ?thesis
  proof (cases "two_digit_month c1 c2")
    case True
    with rm s obtain my: "match_year ev r = Some (y, [])"
      and m: "m = 10 * digit_val ev c1 + digit_val ev c2"
      by (auto simp: regex_match_two)
    from match_year_Some [OF my] True y dt m s show ?thesis by auto
  next
    case False
    with rm s obtain c1: "c1 \<in> set (str ''123456789'')"
      and my: "match_year ev (c2 # r) = Some (y, [])" and m: "m = digit_val ev c1"
      by (auto simp: regex_match_one split: if_splits)
    from match_year_Some [OF my] c1 y dt m s show ?thesis by auto
  qed
qed

lemma strptime_two_digits:
  assumes "two_digit_month c1 c2" "is_digit ev a" "is_digit ev b" "is_digit ev c" "is_digit ev d"
    "1 \<le> year_of ev a b c d"
  shows "strptime ev [c1, c2, ascii CHR ''-'', a, b, c, d] =
           Inr \<lparr>year = year_of ev a b c d, month = 10 * digit_val ev c1 + digit_val ev c2,
                day = 1\<rparr>"
  using assms
  by (simp add: strptime_def regex_match_two match_year_digits)

lemma strptime_one_digit:
  assumes "c1 \<in> set (str ''123456789'')" "is_digit ev a" "is_digit ev b" "is_digit ev c"
    "is_digit ev d" "1 \<le> year_of ev a b c d"
  shows "strptime ev [c1, ascii CHR ''-'', a, b, c, d] =
           Inr \<lparr>year = year_of ev a b c d, month = digit_val ev c1, day = 1\<rparr>"
proof -
  have n2: "\<not> two_digit_month c1 (ascii CHR ''-'')"
    by (simp add: two_digit_month_iff ascii_chars)
  have my: "match_year ev (ascii CHR ''-'' # [a, b, c, d]) = Some (year_of ev a b c d, [])"
    using assms(2-5) by (simp add: match_year_digits)
  have "regex_match ev (month_alternatives ev (c1 # ascii CHR ''-'' # [a, b, c, d])) =
          (if c1 \<in> set (str ''123456789'')
           then map_option (\<lambda>(y, u). (digit_val ev c1, y, u))
                  (match_year ev (ascii CHR ''-'' # [a, b, c, d]))
           else None)"
    using n2 by (rule regex_match_one)
  also have "\<dots> = Some (digit_val ev c1, year_of ev a b c d, [])"
    unfolding my using assms(1) by (simp only: if_True option.map prod.case)
  finally show ?thesis using assms(6) by (simp add: strptime_def)
qed

lemma strptime_Inl: "strptime ev s = Inl e \<Longrightarrow> \<exists>msg. e = ValueError msg"
  by (auto simp: strptime_def split: option.splits if_splits)

lemma strptime_shape:
  assumes "strptime ev s = Inr d"
  shows "date_MM_YYYY ev s \<or> date_M_YYYY ev s"
  using strptime_Inr [OF assms]
proof (elim disjE exE conjE)
  fix c1 c2 a b c e
  assume s: "s = [c1, c2, ascii CHR ''-'', a, b, c, e]" and tm: "two_digit_month c1 c2"
    and dg: "is_digit ev a" "is_digit ev b" "is_digit ev c" "is_digit ev e"
    and y: "1 \<le> year_of ev a b c e"
  note mb = two_digit_month_bounds [OF tm, of ev]
  have "date_MM_YYYY ev s"
    unfolding date_MM_YYYY_def MM_YYYY_def s using mb dg y by simp
  then show ?thesis ..
next
  fix c1 a b c e
  assume s: "s = [c1, ascii CHR ''-'', a, b, c, e]" and c1: "c1 \<in> set (str ''123456789'')"
    and dg: "is_digit ev a" "is_digit ev b" "is_digit ev c" "is_digit ev e"
    and y: "1 \<le> year_of ev a b c e"
  from c1 have "ascii_digit c1" by (simp add: ascii_digit_def in_digits in_nonzero)
  then have "date_M_YYYY ev s"
    unfolding date_M_YYYY_def s using digit_val_nonzero [OF c1, of ev] dg y by simp
  then show ?thesis ..
qed

lemma date_MM_YYYY_pattern: "date_MM_YYYY ev s \<Longrightarrow> MM_YYYY ev s"
  by (simp add: date_MM_YYYY_def)

lemma strptime_01_2021:
  "strptime ev (str ''01-2021'') = Inr \<lparr>year = 2021, month = 1, day = 1\<rparr>"
  by (simp add: str_def ascii_def strptime_def month_alternatives_Cons match_year_def
      digit_val_ascii)

lemma strptime_02_2021:
  "strptime ev (str ''02-2021'') = Inr \<lparr>year = 2021, month = 2, day = 1\<rparr>"
  by (simp add: str_def ascii_def strptime_def month_alternatives_Cons match_year_def
      digit_val_ascii)

lemma strptime_03_2021:
  "strptime ev (str ''03-2021'') = Inr \<lparr>year = 2021, month = 3, day = 1\<rparr>"
  by (simp add: str_def ascii_def strptime_def month_alternatives_Cons match_year_def
      digit_val_ascii)

lemma strptime_1_2021:
  "strptime ev (str ''1-2021'') = Inr \<lparr>year = 2021, month = 1, day = 1\<rparr>"
  by (simp add: str_def ascii_def strptime_def month_alternatives_Cons match_year_def
      digit_val_ascii)

lemma strptime_3_2021:
  "strptime ev (str ''3-2021'') = Inr \<lparr>year = 2021, month = 3, day = 1\<rparr>"
  by (simp add: str_def ascii_def strptime_def month_alternatives_Cons match_year_def
      digit_val_ascii)

subsection \<open>\<^verbatim>\<open>_parse_date\<close>\<close>

lemma parse_date_JStr:
  "parse_date ev (JStr s) =
     (case strptime ev s of Inl e \<Rightarrow> Inl (FormatError s) | Inr d \<Rightarrow> Inr d)"
  by (auto simp: FormatError_def split: sum.splits error.splits dest: strptime_Inl)

lemma parse_date_Inr: "parse_date ev v = Inr d \<Longrightarrow> \<exists>s. v = JStr s \<and> strptime ev s = Inr d"
  by (cases v) (auto simp del: parse_date.simps(1) simp add: parse_date_JStr split: sum.splits)

lemma parse_date_malformed:
  assumes "\<not> date_MM_YYYY ev s" "\<not> date_M_YYYY ev s"
  shows "parse_date ev (JStr s) = Inl (FormatError s)"
proof (cases "strptime ev s")
  case (Inl e)
  then show ?thesis by (simp only: parse_date_JStr sum.case)
next
  case (Inr d)
  with assms strptime_shape show ?thesis by blast
qed

lemma parse_dates_first_error:
  assumes "parse_dates ev pre = Inr ds" "parse_date ev x = Inl e"
  shows "parse_dates ev (pre @ x # post) = Inl e"
  using assms by (induction pre arbitrary: ds) (auto simp: then_do_eq_Inr)

text \<open>
  C3, as the program has it. A date string that is neither a month from 01 to 12, a hyphen
  and a four-digit year other than 0000, nor the same with a month from 1 to 9 in one
  digit, is rejected by \<^verbatim>\<open>_parse_date\<close> with the error that names it, and the construction
  of a package fails with that error when the string is its start, its end (the start being
  a date), or the first such milestone (start and end being dates, the end not before the
  start).
\<close>

theorem malformed_date_rejected:
  assumes "\<not> date_MM_YYYY ev s" "\<not> date_M_YYYY ev s"
  shows "parse_date ev (JStr s) = Inl (FormatError s) \<and>
    (subscript r ''label'' = Inr l \<and> subscript r ''start'' = Inr (JStr s) \<longrightarrow>
       Package ev r = Inl (FormatError s)) \<and>
    (subscript r ''label'' = Inr l \<and> subscript r ''start'' = Inr sv \<and>
     parse_date ev sv = Inr st \<and> subscript r ''end'' = Inr (JStr s) \<longrightarrow>
       Package ev r = Inl (FormatError s)) \<and>
    (subscript r ''label'' = Inr l \<and> subscript r ''start'' = Inr sv \<and>
     parse_date ev sv = Inr st \<and> subscript r ''end'' = Inr nv \<and> parse_date ev nv = Inr en \<and>
     \<not> dt_less en st \<and> subscript r ''milestones'' = Inr ms \<and>
     py_iter ms = Inr (pre @ JStr s # post) \<and> parse_dates ev pre = Inr ds \<longrightarrow>
       Package ev r = Inl (FormatError s))"
proof -
  note bad = parse_date_malformed [OF assms]
  show ?thesis
  proof (intro conjI impI)
    show "parse_date ev (JStr s) = Inl (FormatError s)" by (rule bad)
  next
    assume "subscript r ''label'' = Inr l \<and> subscript r ''start'' = Inr (JStr s)"
    then show "Package ev r = Inl (FormatError s)"
      using bad by (simp add: Package_def del: parse_date.simps)
  next
    assume "subscript r ''label'' = Inr l \<and> subscript r ''start'' = Inr sv \<and>
      parse_date ev sv = Inr st \<and> subscript r ''end'' = Inr (JStr s)"
    then show "Package ev r = Inl (FormatError s)"
      using bad by (simp add: Package_def del: parse_date.simps)
  next
    assume a: "subscript r ''label'' = Inr l \<and> subscript r ''start'' = Inr sv \<and>
      parse_date ev sv = Inr st \<and> subscript r ''end'' = Inr nv \<and> parse_date ev nv = Inr en \<and>
      \<not> dt_less en st \<and> subscript r ''milestones'' = Inr ms \<and>
      py_iter ms = Inr (pre @ JStr s # post) \<and> parse_dates ev pre = Inr ds"
    then have "parse_dates ev (pre @ JStr s # post) = Inl (FormatError s)"
      using bad parse_dates_first_error by blast
    then have "pkg_milestones_of ev r = Inl (FormatError s)"
      using a by (simp add: pkg_milestones_of_def)
    then show "Package ev r = Inl (FormatError s)"
      using a by (simp add: Package_def del: parse_date.simps)
  qed
qed

theorem malformed_date_rejected_witness:
  "parse_date (env_with sample doc_A) (JStr (str ''2020-01'')) =
     Inl (FormatError (str ''2020-01'')) \<and>
   Package (env_with sample doc_A) pkg_swapped = Inl (FormatError (str ''2020-01'')) \<and>
   Package (env_with sample doc_A) pkg_bad_end = Inl (FormatError (str ''2020-01'')) \<and>
   Package (env_with sample doc_A) pkg_bad_milestone = Inl (FormatError (str ''2020-01''))"
proof -
  let ?E = "env_with sample doc_A"
  have n: "\<not> date_MM_YYYY ?E (str ''2020-01'')" "\<not> date_M_YYYY ?E (str ''2020-01'')"
    by code_simp+
  have h1: "subscript pkg_swapped ''label'' = Inr (JStr (str ''A''))"
    "subscript pkg_swapped ''start'' = Inr (JStr (str ''2020-01''))"
    by code_simp+
  have h2: "subscript pkg_bad_end ''label'' = Inr (JStr (str ''A''))"
    "subscript pkg_bad_end ''start'' = Inr (JStr (str ''01-2021''))"
    "parse_date ?E (JStr (str ''01-2021'')) = Inr \<lparr>year = 2021, month = 1, day = 1\<rparr>"
    "subscript pkg_bad_end ''end'' = Inr (JStr (str ''2020-01''))"
    by code_simp+
  have h3: "subscript pkg_bad_milestone ''label'' = Inr (JStr (str ''A''))"
    "subscript pkg_bad_milestone ''start'' = Inr (JStr (str ''01-2021''))"
    "subscript pkg_bad_milestone ''end'' = Inr (JStr (str ''03-2021''))"
    "parse_date ?E (JStr (str ''03-2021'')) = Inr \<lparr>year = 2021, month = 3, day = 1\<rparr>"
    "\<not> dt_less \<lparr>year = 2021, month = 3, day = 1\<rparr> \<lparr>year = 2021, month = 1, day = 1\<rparr>"
    "subscript pkg_bad_milestone ''milestones'' =
       Inr (JArr [JStr (str ''02-2021''), JStr (str ''2020-01'')])"
    "py_iter (JArr [JStr (str ''02-2021''), JStr (str ''2020-01'')]) =
       Inr ([JStr (str ''02-2021'')] @ JStr (str ''2020-01'') # [])"
    "parse_dates ?E [JStr (str ''02-2021'')] = Inr [\<lparr>year = 2021, month = 2, day = 1\<rparr>]"
    by code_simp+
  from malformed_date_rejected [OF n, of pkg_swapped "JStr (str ''A'')"] h1
  have a: "parse_date ?E (JStr (str ''2020-01'')) = Inl (FormatError (str ''2020-01''))"
    "Package ?E pkg_swapped = Inl (FormatError (str ''2020-01''))" by blast+
  from malformed_date_rejected [OF n, of pkg_bad_end "JStr (str ''A'')" "JStr (str ''01-2021'')"
      "\<lparr>year = 2021, month = 1, day = 1\<rparr>"] h2
  have b: "Package ?E pkg_bad_end = Inl (FormatError (str ''2020-01''))" by blast
  from malformed_date_rejected [OF n, of pkg_bad_milestone "JStr (str ''A'')"
      "JStr (str ''01-2021'')" "\<lparr>year = 2021, month = 1, day = 1\<rparr>" "JStr (str ''03-2021'')"
      "\<lparr>year = 2021, month = 3, day = 1\<rparr>"
      "JArr [JStr (str ''02-2021''), JStr (str ''2020-01'')]" "[JStr (str ''02-2021'')]" "[]"
      "[\<lparr>year = 2021, month = 2, day = 1\<rparr>]"] h2(3) h3
  have c: "Package ?E pkg_bad_milestone = Inl (FormatError (str ''2020-01''))" by blast
  from a b c show ?thesis by blast
qed

text \<open>
  The string \<^verbatim>\<open>1-2021\<close> does not match \<open>MM-YYYY\<close>, and it is accepted: a package with such
  dates is constructed.
\<close>

theorem one_digit_month_accepted:
  "\<not> MM_YYYY (env_with sample doc_A) (str ''1-2021'') \<and>
   parse_date (env_with sample doc_A) (JStr (str ''1-2021'')) =
     Inr \<lparr>year = 2021, month = 1, day = 1\<rparr> \<and>
   Package (env_with sample doc_A) pkg_short = Inr package_A"
  by code_simp

text \<open>
  The year may be written in any decimal digits, and a month above 12 or the year 0000 is
  rejected.
\<close>

lemma fullwidth_year_accepted:
  "parse_date (env_with sample doc_A) (JStr fullwidth_01_2021) =
     Inr \<lparr>year = 2021, month = 1, day = 1\<rparr>"
  by code_simp

lemma out_of_range_rejected:
  "parse_date (env_with sample doc_A) (JStr (str ''13-2021'')) =
     Inl (FormatError (str ''13-2021''))"
  "parse_date (env_with sample doc_A) (JStr (str ''01-0000'')) =
     Inl (FormatError (str ''01-0000''))"
  by code_simp+

text \<open>
  C7. An accepted date string, parsed and formatted back as \<open>MM-YYYY\<close>, parses again to the
  same date, so month and year are kept. The formatted string is the string itself, its
  digits written in ASCII, if it has the two-digit month, and that with the month's
  leading zero otherwise; so for an ASCII string it is the string itself, or the string
  with the leading zero.
\<close>

theorem parse_format_roundtrip:
  assumes "parse_date ev (JStr s) = Inr d"
  shows "parse_date ev (JStr (format_date d)) = Inr d \<and>
         format_date d =
           (if length s = 7 then map (to_ascii ev) s else ascii CHR ''0'' # map (to_ascii ev) s) \<and>
         (is_ascii s \<longrightarrow> format_date d = (if length s = 7 then s else ascii CHR ''0'' # s))"
proof -
  from assms have sp: "strptime ev s = Inr d"
    by (simp add: parse_date_JStr del: parse_date.simps split: sum.splits)
  have redo: "ascii_digit (digit_char (digit_val ev x))"
    "is_digit ev (digit_char (digit_val ev x))"
    "digit_val ev (digit_char (digit_val ev x)) = digit_val ev x" for x
    using digit_val_bounds [of ev x] digit_val_char [where n = "digit_val ev x" and ev = ev]
    by simp_all
  have same: "digit_char (digit_val ev x) = x" if "x < 128" "is_digit ev x" for x
    using is_digit_ascii [OF that] by (intro digit_char_val) (simp add: ascii_digit_def in_digits)
  have hy: "\<not> is_digit ev (ascii CHR ''-'')"
  proof
    assume "is_digit ev (ascii CHR ''-'')"
    with is_digit_ascii [of "ascii CHR ''-''" ev] show False by (simp add: ascii_chars)
  qed
  from strptime_Inr [OF sp] show ?thesis
  proof (elim disjE exE conjE)
    fix c1 c2 a b c e
    assume s: "s = [c1, c2, ascii CHR ''-'', a, b, c, e]" and tm: "two_digit_month c1 c2"
      and dg: "is_digit ev a" "is_digit ev b" "is_digit ev c" "is_digit ev e"
      and y: "1 \<le> year_of ev a b c e"
      and d: "d = \<lparr>year = year_of ev a b c e,
                   month = 10 * digit_val ev c1 + digit_val ev c2, day = 1\<rparr>"
    note mb = two_digit_month_bounds [OF tm, of ev]
    note b2 = digit_val_bounds [of ev c2]
    have m: "(10 * digit_val ev c1 + digit_val ev c2) div 10 = digit_val ev c1"
      "(10 * digit_val ev c1 + digit_val ev c2) mod 10 = digit_val ev c2"
      using b2 by (simp_all only: decimal_step)
    have c12: "digit_char (digit_val ev c1) = c1" "digit_char (digit_val ev c2) = c2"
      using mb by (simp_all add: digit_char_val)
    have f: "format_date d =
        [c1, c2, ascii CHR ''-'', digit_char (digit_val ev a), digit_char (digit_val ev b),
         digit_char (digit_val ev c), digit_char (digit_val ev e)]"
      unfolding format_date_def d
      by (simp only: datetime.simps m year_digits c12)
    have yr: "year_of ev (digit_char (digit_val ev a)) (digit_char (digit_val ev b))
        (digit_char (digit_val ev c)) (digit_char (digit_val ev e)) = year_of ev a b c e"
      by (simp add: year_of_def redo)
    have "strptime ev (format_date d) = Inr d"
      unfolding f using strptime_two_digits [OF tm redo(2) [of a] redo(2) [of b] redo(2) [of c] redo(2) [of e]]
        y d by (simp add: yr)
    moreover have "format_date d = s" if "is_ascii s"
      using that dg unfolding f s by (simp add: is_ascii_def same)
    moreover have "format_date d = map (to_ascii ev) s"
      unfolding f s using dg c12 by (simp add: to_ascii_def hy)
    ultimately show ?thesis using s by (simp add: parse_date_JStr del: parse_date.simps)
  next
    fix c1 a b c e
    assume s: "s = [c1, ascii CHR ''-'', a, b, c, e]" and c1: "c1 \<in> set (str ''123456789'')"
      and dg: "is_digit ev a" "is_digit ev b" "is_digit ev c" "is_digit ev e"
      and y: "1 \<le> year_of ev a b c e"
      and d: "d = \<lparr>year = year_of ev a b c e, month = digit_val ev c1, day = 1\<rparr>"
    note vb = digit_val_nonzero [OF c1, of ev]
    have m: "digit_val ev c1 div 10 = 0" "digit_val ev c1 mod 10 = digit_val ev c1"
      using vb by simp_all
    have c1d: "digit_char (digit_val ev c1) = c1"
      using c1 by (intro digit_char_val) (simp add: ascii_digit_def in_digits in_nonzero)
    have z: "digit_char 0 = ascii CHR ''0''" by (simp add: digit_char_def ascii_chars)
    have f: "format_date d =
        [ascii CHR ''0'', c1, ascii CHR ''-'', digit_char (digit_val ev a),
         digit_char (digit_val ev b), digit_char (digit_val ev c), digit_char (digit_val ev e)]"
      unfolding format_date_def d
      by (simp only: datetime.simps m year_digits c1d z)
    have tm: "two_digit_month (ascii CHR ''0'') c1"
      using c1 by (simp add: two_digit_month_iff in_nonzero ascii_chars)
    have yr: "year_of ev (digit_char (digit_val ev a)) (digit_char (digit_val ev b))
        (digit_char (digit_val ev c)) (digit_char (digit_val ev e)) = year_of ev a b c e"
      by (simp add: year_of_def redo)
    have z0: "digit_val ev (ascii CHR ''0'') = 0"
      using digit_val_ascii(1) [of 48 ev] by (simp add: ascii_chars)
    have "strptime ev (format_date d) = Inr d"
      unfolding f using strptime_two_digits [OF tm redo(2) [of a] redo(2) [of b] redo(2) [of c] redo(2) [of e]]
        y d by (simp add: yr z0)
    moreover have "format_date d = ascii CHR ''0'' # s" if "is_ascii s"
      using that dg unfolding f s by (simp add: is_ascii_def same)
    moreover have "format_date d = ascii CHR ''0'' # map (to_ascii ev) s"
      unfolding f s using dg c1d by (simp add: to_ascii_def hy)
    ultimately show ?thesis using s by (simp add: parse_date_JStr del: parse_date.simps)
  qed
qed

theorem parse_format_roundtrip_witness:
  "parse_date (env_with sample doc_A) (JStr (str ''03-2021'')) =
     Inr \<lparr>year = 2021, month = 3, day = 1\<rparr> \<and>
   is_ascii (str ''03-2021'') \<and>
   format_date \<lparr>year = 2021, month = 3, day = 1\<rparr> = str ''03-2021'' \<and>
   parse_date (env_with sample doc_A) (JStr (format_date \<lparr>year = 2021, month = 3, day = 1\<rparr>)) =
     Inr \<lparr>year = 2021, month = 3, day = 1\<rparr>"
proof -
  let ?E = "env_with sample doc_A"
  let ?d = "\<lparr>year = 2021, month = 3, day = 1\<rparr>"
  have p: "parse_date ?E (JStr (str ''03-2021'')) = Inr ?d" by code_simp
  have a: "is_ascii (str ''03-2021'')" "length (str ''03-2021'') = 7" by code_simp+
  from parse_format_roundtrip [OF p]
  have r: "parse_date ?E (JStr (format_date ?d)) = Inr ?d"
    and q: "is_ascii (str ''03-2021'') \<longrightarrow>
      format_date ?d =
        (if length (str ''03-2021'') = 7 then str ''03-2021'' else ascii CHR ''0'' # str ''03-2021'')"
    by blast+
  from q a have "format_date ?d = str ''03-2021''" by (simp only: if_True simp_thms)
  with p a(1) r show ?thesis by blast
qed

section \<open>Constructing a package\<close>

lemma Package_Inr:
  assumes "Package ev r = Inr p"
  shows "subscript r ''label'' = Inr (pkg_label p) \<and>
         (\<exists>sv. subscript r ''start'' = Inr sv \<and> parse_date ev sv = Inr (pkg_start p)) \<and>
         (\<exists>nv. subscript r ''end'' = Inr nv \<and> parse_date ev nv = Inr (pkg_end p)) \<and>
         \<not> dt_less (pkg_end p) (pkg_start p) \<and>
         pkg_milestones_of ev r = Inr (pkg_milestones p) \<and>
         subscript_or r ''color'' DEFCOLOR = Inr (pkg_color p) \<and>
         subscript_or r ''legend'' JNull = Inr (pkg_legend p)"
  using assms unfolding Package_def
  by (auto simp: then_do_eq_Inr split: if_splits)

lemma Package_pkg_A: "Package (env_with sample doc_A) pkg_A = Inr package_A"
  by code_simp

text \<open>
  C4. A package record with a label whose start and end are dates, the start strictly
  after the end, is rejected with the validation error; and every package that is
  constructed has its start no later than its end.
\<close>

theorem package_start_le_end:
  "(subscript r ''label'' = Inr l \<and> subscript r ''start'' = Inr sv \<and> parse_date ev sv = Inr s \<and>
    subscript r ''end'' = Inr nv \<and> parse_date ev nv = Inr e \<and> dt_less e s \<longrightarrow>
      Package ev r = Inl ValidationError) \<and>
   (Package ev r = Inr p \<longrightarrow> dt_le (pkg_start p) (pkg_end p))"
proof (intro conjI impI)
  assume "subscript r ''label'' = Inr l \<and> subscript r ''start'' = Inr sv \<and>
    parse_date ev sv = Inr s \<and> subscript r ''end'' = Inr nv \<and> parse_date ev nv = Inr e \<and>
    dt_less e s"
  then show "Package ev r = Inl ValidationError"
    by (simp add: Package_def ValidationError_def)
next
  assume "Package ev r = Inr p"
  then show "dt_le (pkg_start p) (pkg_end p)"
    by (simp add: Package_Inr dt_le_def)
qed

theorem package_start_le_end_witness:
  "Package (env_with sample doc_A) pkg_late = Inl ValidationError \<and>
   Package (env_with sample doc_A) pkg_A = Inr package_A \<and>
   dt_le \<lparr>year = 2021, month = 1, day = 1\<rparr> \<lparr>year = 2021, month = 3, day = 1\<rparr>"
proof -
  let ?E = "env_with sample doc_A"
  have h: "subscript pkg_late ''label'' = Inr (JStr (str ''B''))"
    "subscript pkg_late ''start'' = Inr (JStr (str ''03-2021''))"
    "parse_date ?E (JStr (str ''03-2021'')) = Inr \<lparr>year = 2021, month = 3, day = 1\<rparr>"
    "subscript pkg_late ''end'' = Inr (JStr (str ''01-2021''))"
    "parse_date ?E (JStr (str ''01-2021'')) = Inr \<lparr>year = 2021, month = 1, day = 1\<rparr>"
    "dt_less \<lparr>year = 2021, month = 1, day = 1\<rparr> \<lparr>year = 2021, month = 3, day = 1\<rparr>"
    by code_simp+
  from package_start_le_end [of pkg_late "JStr (str ''B'')" "JStr (str ''03-2021'')" ?E
      "\<lparr>year = 2021, month = 3, day = 1\<rparr>" "JStr (str ''01-2021'')"
      "\<lparr>year = 2021, month = 1, day = 1\<rparr>"] h
  have a: "Package ?E pkg_late = Inl ValidationError" by blast
  from package_start_le_end [of pkg_A _ _ ?E _ _ _ package_A] Package_pkg_A
  have "dt_le (pkg_start package_A) (pkg_end package_A)" by blast
  then have b: "dt_le \<lparr>year = 2021, month = 1, day = 1\<rparr> \<lparr>year = 2021, month = 3, day = 1\<rparr>"
    by (simp add: package_A_def)
  from a b Package_pkg_A show ?thesis by blast
qed

section \<open>The ordinal and the calendar\<close>

lemma div_step:
  assumes "0 < k"
  shows "((y::int) + 1) div k = y div k + (if k dvd (y + 1) then 1 else 0)"
proof -
  define q r where "q = y div k" and "r = y mod k"
  have y: "y = k * q + r" by (simp add: q_def r_def)
  have r: "0 \<le> r" "r < k" using assms by (simp_all add: r_def)
  show ?thesis
  proof (cases "r + 1 = k")
    case True
    then have "y + 1 = k * (q + 1)" using y by (simp add: algebra_simps)
    then have "(y + 1) div k = q + 1" "k dvd (y + 1)" using assms by simp_all
    then show ?thesis by (simp add: q_def)
  next
    case False
    then have lt: "r + 1 < k" using r by simp
    have e: "y + 1 = (r + 1) + q * k" using y by (simp add: algebra_simps)
    have d: "(y + 1) div k = q" unfolding e using r lt by simp
    have m: "(y + 1) mod k = r + 1" unfolding e using r lt by simp
    have "\<not> k dvd (y + 1)" using m r by (simp add: dvd_eq_mod_eq_0)
    then show ?thesis using d by (simp add: q_def)
  qed
qed

lemma days_before_year_step:
  "days_before_year (y + 1) = days_before_year y + 365 + (if is_leap y then 1 else 0)"
proof -
  define d4 d100 d400 where "d4 = (y - 1) div 4" and "d100 = (y - 1) div 100"
    and "d400 = (y - 1) div 400"
  define p4 p100 p400 where "p4 \<longleftrightarrow> 4 dvd y" and "p100 \<longleftrightarrow> 100 dvd y"
    and "p400 \<longleftrightarrow> 400 dvd y"
  define a4 a100 a400 :: int where "a4 = (if p4 then 1 else 0)"
    and "a100 = (if p100 then 1 else 0)" and "a400 = (if p400 then 1 else 0)"
  have s4: "y div 4 = d4 + a4"
    using div_step [of 4 "y - 1"] by (simp add: d4_def a4_def p4_def)
  have s100: "y div 100 = d100 + a100"
    using div_step [of 100 "y - 1"] by (simp add: d100_def a100_def p100_def)
  have s400: "y div 400 = d400 + a400"
    using div_step [of 400 "y - 1"] by (simp add: d400_def a400_def p400_def)
  have "(4::int) dvd 100" "(100::int) dvd 400" by simp_all
  then have a: "p100 \<longrightarrow> p4" "p400 \<longrightarrow> p100"
    unfolding p4_def p100_def p400_def using dvd_trans by blast+
  have l: "is_leap y \<longleftrightarrow> p4 \<and> (\<not> p100 \<or> p400)"
    by (simp add: is_leap_def dvd_eq_mod_eq_0 p4_def p100_def p400_def)
  have leap: "a4 - a100 + a400 = (if is_leap y then 1 else 0)"
    unfolding l a4_def a100_def a400_def using a by (cases p4; cases p100; cases p400) simp_all
  have "days_before_year (y + 1) = y * 365 + y div 4 - y div 100 + y div 400"
    by (simp add: days_before_year_def)
  also have "\<dots> = y * 365 + (d4 + a4) - (d100 + a100) + (d400 + a400)"
    by (simp only: s4 s100 s400)
  also have "\<dots> = ((y - 1) * 365 + d4 - d100 + d400) + 365 + (a4 - a100 + a400)"
    by (simp add: algebra_simps)
  also have "\<dots> = days_before_year y + 365 + (if is_leap y then 1 else 0)"
    by (simp only: leap days_before_year_def d4_def d100_def d400_def)
  finally show ?thesis .
qed

lemma days_before_month_step:
  assumes "1 \<le> m" "m \<le> 11"
  shows "days_before_month y (m + 1) = days_before_month y m + days_in_month y m"
proof -
  from assms have "m = 1 \<or> m = 2 \<or> m = 3 \<or> m = 4 \<or> m = 5 \<or> m = 6 \<or> m = 7 \<or> m = 8 \<or>
      m = 9 \<or> m = 10 \<or> m = 11" by arith
  then show ?thesis
    by (elim disjE) (simp_all add: days_before_month_def DAYS_BEFORE_MONTH_def days_in_month_def)
qed

lemma days_before_month_ends:
  "days_before_month y 1 = 0" "days_before_month y 12 + days_in_month y 12 = 365 + (if is_leap y then 1 else 0)"
  by (simp_all add: days_before_month_def DAYS_BEFORE_MONTH_def days_in_month_def)

lemma days_in_month_pos: "0 < days_in_month y m"
  by (simp add: days_in_month_def)

lemma days_of_months_nonneg: "0 \<le> days_of_months y m k"
proof (induction k arbitrary: y m)
  case 0
  then show ?case by simp
next
  case (Suc k)
  from Suc [of "y + 1" 1] Suc [of y "m + 1"] days_in_month_pos [of y m] show ?case by simp
qed

lemma months_span:
  assumes "1 \<le> m" "m \<le> 12" "1 \<le> m'" "m' \<le> 12" "12 * y' + m' - (12 * y + m) = int k"
  shows "days_before_year y' + days_before_month y' m' =
         days_before_year y + days_before_month y m + days_of_months y m k"
  using assms
proof (induction k arbitrary: y m)
  case 0
  then have e: "12 * (y' - y) = m - m'" by simp
  have "m - m' \<le> 11" "- 11 \<le> m - m'" using 0 by simp_all
  with e have "y' - y = 0" by presburger
  with e show ?case by simp
next
  case (Suc k)
  show ?case
  proof (cases "m = 12")
    case True
    have "days_before_year y' + days_before_month y' m' =
            days_before_year (y + 1) + days_before_month (y + 1) 1 + days_of_months (y + 1) 1 k"
      using Suc.prems True by (intro Suc.IH) simp_all
    then show ?thesis
      using True days_before_month_ends [of y] days_before_month_ends(1) [of "y + 1"]
      by (simp add: days_before_year_step)
  next
    case False
    with Suc.prems have m: "1 \<le> m" "m \<le> 11" by simp_all
    have "days_before_year y' + days_before_month y' m' =
            days_before_year y + days_before_month y (m + 1) + days_of_months y (m + 1) k"
      using Suc.prems m by (intro Suc.IH) simp_all
    then show ?thesis
      using False by (simp add: days_before_month_step [OF m])
  qed
qed

section \<open>Loading\<close>

lemma subscript_not_object: "\<not> is_object d \<Longrightarrow> subscript d k = Inl TypeError"
  by (cases d) simp_all

lemma subscript_missing: "\<not> has_key (JObj kvs) k \<Longrightarrow> subscript (JObj kvs) k = Inl (KeyError k)"
  by simp

lemma subscript_present: "has_key (JObj kvs) k \<Longrightarrow> \<exists>v. subscript (JObj kvs) k = Inr v"
  by auto

text \<open>
  C2, as the program has it. Loading ends with the exception that \<^verbatim>\<open>open\<close>, \<^verbatim>\<open>read\<close> or the
  JSON parser raises (\<^verbatim>\<open>OSError\<close> for a missing or unreadable file, \<^verbatim>\<open>UnicodeDecodeError\<close>,
  \<^verbatim>\<open>JSONDecodeError\<close> for malformed content: data errors). A document that is an object
  without the key \<^verbatim>\<open>title\<close>, or with it and without the key \<^verbatim>\<open>packages\<close>, fails with the
  \<^verbatim>\<open>KeyError\<close> of that key, a data error. A document that is not an object fails with
  \<^verbatim>\<open>TypeError\<close>, which is not a data error. In each case the chart is not constructed.
\<close>

theorem load_fails_with_DataError:
  "(files ev file = Inl e \<longrightarrow> loadData ev file = Inl e \<and> Gantt ev file = Inl e) \<and>
   (files ev file = Inr txt \<and> json_loads ev txt = Inl e \<longrightarrow>
      loadData ev file = Inl e \<and> Gantt ev file = Inl e) \<and>
   (files ev file = Inr txt \<and> json_loads ev txt = Inr (JObj kvs) \<and>
    \<not> has_key (JObj kvs) ''title'' \<longrightarrow> load_fails ev file (KeyError ''title'')) \<and>
   (files ev file = Inr txt \<and> json_loads ev txt = Inr (JObj kvs) \<and>
    has_key (JObj kvs) ''title'' \<and> \<not> has_key (JObj kvs) ''packages'' \<longrightarrow>
      load_fails ev file (KeyError ''packages'')) \<and>
   (files ev file = Inr txt \<and> json_loads ev txt = Inr d \<and> \<not> is_object d \<longrightarrow>
      loadData ev file = Inl TypeError \<and> Gantt ev file = Inl TypeError) \<and>
   DataError OSError \<and> DataError UnicodeDecodeError \<and> DataError JSONDecodeError \<and>
   \<not> DataError TypeError"
proof -
  have a: "loadData ev file = Inl e \<and> Gantt ev file = Inl e" if "files ev file = Inl e"
    using that by (simp add: Gantt_def loadData_def load_json_def)
  have b: "loadData ev file = Inl e \<and> Gantt ev file = Inl e"
    if "files ev file = Inr txt" "json_loads ev txt = Inl e"
    using that by (simp add: Gantt_def loadData_def load_json_def)
  have c: "load_fails ev file (KeyError ''title'')"
    if "files ev file = Inr txt" "json_loads ev txt = Inr (JObj kvs)"
      "\<not> has_key (JObj kvs) ''title''"
    using that(1,2) subscript_missing [OF that(3)]
    by (simp add: load_fails_def Gantt_def loadData_def load_json_def del: subscript.simps)
  have d: "load_fails ev file (KeyError ''packages'')"
    if "files ev file = Inr txt" "json_loads ev txt = Inr (JObj kvs)"
      "has_key (JObj kvs) ''title''" "\<not> has_key (JObj kvs) ''packages''"
  proof -
    from subscript_present [OF that(3)] obtain t where "subscript (JObj kvs) ''title'' = Inr t" ..
    with that(1,2) subscript_missing [OF that(4)] show ?thesis
      by (simp add: load_fails_def Gantt_def loadData_def load_json_def del: subscript.simps)
  qed
  have f: "loadData ev file = Inl TypeError \<and> Gantt ev file = Inl TypeError"
    if "files ev file = Inr txt" "json_loads ev txt = Inr d" "\<not> is_object d"
    using that(1,2) subscript_not_object [OF that(3)]
    by (simp add: Gantt_def loadData_def load_json_def)
  show ?thesis using a b c d f by auto
qed

theorem load_fails_with_DataError_witness:
  "load_fails (env_with sample doc_A) other OSError \<and>
   load_fails (env_malformed sample) sample JSONDecodeError \<and>
   load_fails (env_with sample doc_no_title) sample (KeyError ''title'') \<and>
   load_fails (env_with sample doc_no_packages) sample (KeyError ''packages'') \<and>
   loadData (env_with sample doc_list) sample = Inl TypeError \<and>
   Gantt (env_with sample doc_list) sample = Inl TypeError"
proof -
  have h1: "files (env_with sample doc_A) other = Inl OSError" by code_simp
  have h2: "files (env_malformed sample) sample = Inr (str ''{'')"
    "json_loads (env_malformed sample) (str ''{'') = Inl JSONDecodeError" by code_simp+
  have h3: "files (env_with sample doc_no_title) sample = Inr (str ''doc'')"
    "json_loads (env_with sample doc_no_title) (str ''doc'') =
       Inr (JObj [(str ''packages'', JArr [pkg_A])])"
    "\<not> has_key (JObj [(str ''packages'', JArr [pkg_A])]) ''title''" by code_simp+
  have h4: "files (env_with sample doc_no_packages) sample = Inr (str ''doc'')"
    "json_loads (env_with sample doc_no_packages) (str ''doc'') =
       Inr (JObj [(str ''title'', JStr (str ''T''))])"
    "has_key (JObj [(str ''title'', JStr (str ''T''))]) ''title''"
    "\<not> has_key (JObj [(str ''title'', JStr (str ''T''))]) ''packages''" by code_simp+
  have h5: "files (env_with sample doc_list) sample = Inr (str ''doc'')"
    "json_loads (env_with sample doc_list) (str ''doc'') = Inr doc_list"
    "\<not> is_object doc_list" by code_simp+
  from load_fails_with_DataError [of "env_with sample doc_A" other OSError] h1
  have a: "load_fails (env_with sample doc_A) other OSError"
    by (simp add: load_fails_def)
  from load_fails_with_DataError [of "env_malformed sample" sample JSONDecodeError "str ''{''"] h2
  have b: "load_fails (env_malformed sample) sample JSONDecodeError"
    by (simp add: load_fails_def)
  from load_fails_with_DataError [of "env_with sample doc_no_title" sample _ "str ''doc''"
      "[(str ''packages'', JArr [pkg_A])]"] h3
  have c: "load_fails (env_with sample doc_no_title) sample (KeyError ''title'')" by blast
  from load_fails_with_DataError [of "env_with sample doc_no_packages" sample _ "str ''doc''"
      "[(str ''title'', JStr (str ''T''))]"] h4
  have d: "load_fails (env_with sample doc_no_packages) sample (KeyError ''packages'')" by blast
  from load_fails_with_DataError [of "env_with sample doc_list" sample _ "str ''doc''" _ doc_list]
    h5
  have f: "loadData (env_with sample doc_list) sample = Inl TypeError \<and>
    Gantt (env_with sample doc_list) sample = Inl TypeError" by blast
  from a b c d f show ?thesis by blast
qed

text \<open>
  The document \<^verbatim>\<open>[1, 2]\<close> has no key \<^verbatim>\<open>title\<close>, and loading it fails with \<^verbatim>\<open>TypeError\<close>,
  not with a data error.
\<close>

theorem list_document_TypeError:
  "\<not> has_key doc_list ''title'' \<and>
   loadData (env_with sample doc_list) sample = Inl TypeError \<and>
   Gantt (env_with sample doc_list) sample = Inl TypeError \<and>
   \<not> DataError TypeError \<and> \<not> load_fails (env_with sample doc_list) sample TypeError"
  by code_simp

section \<open>Labels and slots\<close>

lemma py_eq_refl [simp]: "py_eq a a"
  by (simp add: py_eq_def split: option.splits)

lemma py_eq_sym: "py_eq a b \<Longrightarrow> py_eq b a"
  by (auto simp: py_eq_def split: option.splits)

lemma py_eq_trans: "py_eq a b \<Longrightarrow> py_eq b c \<Longrightarrow> py_eq a c"
  by (auto simp: py_eq_def split: option.splits)

lemma index_Inr_iff:
  "index xs x = Inr i \<longleftrightarrow> i < length xs \<and> py_eq (xs ! i) x \<and> (\<forall>k<i. \<not> py_eq (xs ! k) x)"
proof (induction xs arbitrary: i)
  case Nil
  then show ?case by simp
next
  case (Cons y ys)
  show ?case
  proof (cases "py_eq y x")
    case True
    then show ?thesis by (cases i) auto
  next
    case False
    show ?thesis
    proof (cases i)
      case 0
      with False show ?thesis by (auto simp: then_do_eq_Inr)
    next
      case (Suc j)
      have "(\<forall>k<Suc j. \<not> py_eq ((y # ys) ! k) x) \<longleftrightarrow> (\<forall>k<j. \<not> py_eq (ys ! k) x)"
        using False by (auto simp: less_Suc_eq_0_disj)
      with False Suc Cons.IH [of j] show ?thesis
        by (simp add: then_do_eq_Inr)
    qed
  qed
qed

lemma index_member:
  assumes "y \<in> set xs" "py_eq y x"
  shows "\<exists>i. index xs x = Inr i"
  using assms by (induction xs) (auto simp: then_do_eq_Inr)


lemma py_distinct_nth:
  assumes "py_distinct xs" "i < j" "j < length xs"
  shows "\<not> py_eq (xs ! i) (xs ! j)"
  using assms
proof (induction xs arbitrary: i j)
  case Nil
  then show ?case by simp
next
  case (Cons x xs)
  from Cons.prems obtain j' where j: "j = Suc j'" by (cases j) auto
  show ?case
  proof (cases i)
    case 0
    with Cons.prems j show ?thesis by (auto simp: list_all_iff)
  next
    case (Suc i')
    with Cons.prems j Cons.IH [of i' j'] show ?thesis by simp
  qed
qed

lemma index_first:
  assumes "i < length xs" "\<forall>k<i. \<not> py_eq (xs ! k) (xs ! i)"
  shows "index xs (xs ! i) = Inr i"
  using assms by (simp add: index_Inr_iff)

lemma make_packages_labels:
  assumes "make_packages ev rs = Inr ps" "collect_labels rs = Inr ls"
  shows "ls = map pkg_label ps"
  using assms
proof (induction rs arbitrary: ps ls)
  case Nil
  then show ?case by simp
next
  case (Cons r rs)
  from Cons.prems(1) obtain p ps' where p: "Package ev r = Inr p" "make_packages ev rs = Inr ps'"
    "ps = p # ps'" by (auto simp: then_do_eq_Inr)
  from Cons.prems(2) obtain l ls' where l: "subscript r ''label'' = Inr l"
    "collect_labels rs = Inr ls'" "ls = l # ls'" by (auto simp: then_do_eq_Inr)
  from Package_Inr [OF p(1)] l(1) have "l = pkg_label p" by simp
  with Cons.IH [OF p(2) l(2)] p(3) l(3) show ?case by simp
qed

lemma loadData_Inr:
  assumes "loadData ev file = Inr g"
  shows "labels g = map pkg_label (packages g) \<and>
         build_milestones [] (packages g) = Inr (milestones g)"
  using assms unfolding loadData_def
  by (auto simp: then_do_eq_Inr dest: make_packages_labels)

lemma list_set_Inr: "i < length xs \<Longrightarrow> list_set xs i v = Inr (xs[i := v])"
  by (simp add: list_set_def)

lemma find_snoc:
  "find P (xs @ [x]) = (case find P xs of None \<Rightarrow> (if P x then Some x else None) | Some y \<Rightarrow> Some y)"
  by (induction xs) auto

lemma place_dates_result:
  assumes "length st = length lbls" "length en = length lbls"
    "\<forall>p\<in>set ps. \<exists>k. index lbls (pkg_label p) = Inr k"
  shows "\<exists>st' en'. place_dates lbls ps st en = Inr (st', en') \<and>
           length st' = length lbls \<and> length en' = length lbls \<and>
           (\<forall>k<length lbls.
              st' ! k = (case find (\<lambda>p. index lbls (pkg_label p) = Inr k) (rev ps) of
                           None \<Rightarrow> st ! k | Some p \<Rightarrow> Some (pkg_start p)) \<and>
              en' ! k = (case find (\<lambda>p. index lbls (pkg_label p) = Inr k) (rev ps) of
                           None \<Rightarrow> en ! k | Some p \<Rightarrow> Some (pkg_end p)))"
  using assms
proof (induction ps arbitrary: st en)
  case Nil
  then show ?case by simp
next
  case (Cons p ps)
  from Cons.prems(3) obtain i where i: "index lbls (pkg_label p) = Inr i" by auto
  then have il: "i < length lbls" by (simp add: index_Inr_iff)
  let ?st = "st[i := Some (pkg_start p)]" and ?en = "en[i := Some (pkg_end p)]"
  have step: "place_dates lbls (p # ps) st en = place_dates lbls ps ?st ?en"
    using i il Cons.prems(1,2) by (simp add: list_set_Inr)
  have "length ?st = length lbls" "length ?en = length lbls"
    "\<forall>q\<in>set ps. \<exists>k. index lbls (pkg_label q) = Inr k"
    using Cons.prems by simp_all
  from Cons.IH [OF this] obtain st' en' where r: "place_dates lbls ps ?st ?en = Inr (st', en')"
    "length st' = length lbls" "length en' = length lbls"
    and v: "\<And>k. k < length lbls \<Longrightarrow>
          st' ! k = (case find (\<lambda>p. index lbls (pkg_label p) = Inr k) (rev ps) of
                       None \<Rightarrow> ?st ! k | Some p \<Rightarrow> Some (pkg_start p)) \<and>
          en' ! k = (case find (\<lambda>p. index lbls (pkg_label p) = Inr k) (rev ps) of
                       None \<Rightarrow> ?en ! k | Some p \<Rightarrow> Some (pkg_end p))"
    by blast
  have "st' ! k = (case find (\<lambda>p. index lbls (pkg_label p) = Inr k) (rev (p # ps)) of
                       None \<Rightarrow> st ! k | Some p \<Rightarrow> Some (pkg_start p)) \<and>
        en' ! k = (case find (\<lambda>p. index lbls (pkg_label p) = Inr k) (rev (p # ps)) of
                       None \<Rightarrow> en ! k | Some p \<Rightarrow> Some (pkg_end p))"
    if k: "k < length lbls" for k
    using v [OF k] i k Cons.prems(1,2)
    by (cases "find (\<lambda>p. index lbls (pkg_label p) = Inr k) (rev ps)")
      (auto simp: find_snoc nth_list_update)
  with step r show ?case by auto
qed

lemma compute_durations_Inl: "compute_durations xs = Inl e \<Longrightarrow> e = TypeError"
  by (induction xs arbitrary: e rule: compute_durations.induct)
    (auto simp: then_do_def split: sum.splits)

lemma compute_durations_Inr:
  "compute_durations (zip st en) = Inr ds \<Longrightarrow> k < length st \<Longrightarrow> k < length en \<Longrightarrow>
     \<exists>s e. st ! k = Some s \<and> en ! k = Some e \<and> ds ! k = sub_days e s"
proof (induction st arbitrary: en ds k)
  case Nil
  then show ?case by simp
next
  case (Cons x st)
  from Cons.prems(3) obtain y en' where en: "en = y # en'" by (cases en) auto
  from Cons.prems(1) en obtain s e where xy: "x = Some s" "y = Some e"
    by (cases x; cases y) auto
  from Cons.prems(1) en xy obtain ds' where ds: "compute_durations (zip st en') = Inr ds'"
    "ds = sub_days e s # ds'"
    by (auto simp: then_do_eq_Inr)
  show ?case
  proof (cases k)
    case 0
    with en xy ds show ?thesis by simp
  next
    case (Suc k')
    with Cons.IH [OF ds(1), of k'] Cons.prems(2,3) en ds show ?thesis by simp
  qed
qed

lemma py_distinct_iff:
  "py_distinct xs \<longleftrightarrow> (\<forall>i j. i < j \<and> j < length xs \<longrightarrow> \<not> py_eq (xs ! i) (xs ! j))"
proof
  assume "py_distinct xs"
  then show "\<forall>i j. i < j \<and> j < length xs \<longrightarrow> \<not> py_eq (xs ! i) (xs ! j)"
    using py_distinct_nth by blast
next
  show "\<forall>i j. i < j \<and> j < length xs \<longrightarrow> \<not> py_eq (xs ! i) (xs ! j) \<Longrightarrow> py_distinct xs"
  proof (induction xs)
    case Nil
    then show ?case by simp
  next
    case (Cons x xs)
    have "\<not> py_eq x y" if "y \<in> set xs" for y
    proof -
      from that obtain m where "m < length xs" "y = xs ! m" by (auto simp: in_set_conv_nth)
      with Cons.prems [rule_format, of 0 "Suc m"] show ?thesis by simp
    qed
    moreover have "\<not> py_eq (xs ! i) (xs ! j)" if "i < j" "j < length xs" for i j
      using Cons.prems [rule_format, of "Suc i" "Suc j"] that by simp
    ultimately show ?case using Cons.IH by (simp add: list_all_iff)
  qed
qed

lemma find_unique:
  assumes "x \<in> set ys" "P x" "\<forall>y\<in>set ys. P y \<longrightarrow> y = x"
  shows "find P ys = Some x"
proof -
  from assms(1,2) have "find P ys \<noteq> None" by (auto simp: find_None_iff)
  then obtain z where z: "find P ys = Some z" by auto
  then have "z \<in> set ys" "P z" by (auto simp: find_Some_iff)
  with assms(3) have "z = x" by blast
  with z show ?thesis by simp
qed

lemma index_own_label:
  assumes "py_distinct lbls" "m < length lbls"
  shows "index lbls (lbls ! m) = Inr m"
proof (rule index_first [OF assms(2)])
  show "\<forall>k<m. \<not> py_eq (lbls ! k) (lbls ! m)"
    using py_distinct_nth [OF assms(1) _ assms(2)] by blast
qed

lemma place_dates_distinct:
  assumes "py_distinct (map pkg_label pkgs)"
  shows "place_dates (map pkg_label pkgs) pkgs (replicate (length pkgs) None)
           (replicate (length pkgs) None) =
         Inr (map (\<lambda>p. Some (pkg_start p)) pkgs, map (\<lambda>p. Some (pkg_end p)) pkgs)"
proof -
  let ?lbls = "map pkg_label pkgs" and ?n = "length pkgs"
  have own: "index ?lbls (pkg_label (pkgs ! m)) = Inr m" if "m < ?n" for m
    using index_own_label [OF assms, of m] that by simp
  have all: "\<forall>p\<in>set pkgs. \<exists>k. index ?lbls (pkg_label p) = Inr k"
    using own by (auto simp: in_set_conv_nth)
  from place_dates_result [of "replicate ?n None" ?lbls "replicate ?n None" pkgs] all
  obtain st en where r: "place_dates ?lbls pkgs (replicate ?n None) (replicate ?n None) = Inr (st, en)"
    "length st = ?n" "length en = ?n"
    and v: "\<And>k. k < ?n \<Longrightarrow>
          st ! k = (case find (\<lambda>p. index ?lbls (pkg_label p) = Inr k) (rev pkgs) of
                      None \<Rightarrow> replicate ?n None ! k | Some p \<Rightarrow> Some (pkg_start p)) \<and>
          en ! k = (case find (\<lambda>p. index ?lbls (pkg_label p) = Inr k) (rev pkgs) of
                      None \<Rightarrow> replicate ?n None ! k | Some p \<Rightarrow> Some (pkg_end p))"
    by auto
  have f: "find (\<lambda>p. index ?lbls (pkg_label p) = Inr k) (rev pkgs) = Some (pkgs ! k)"
    if k: "k < ?n" for k
  proof (rule find_unique)
    show "pkgs ! k \<in> set (rev pkgs)" using k by simp
    show "index ?lbls (pkg_label (pkgs ! k)) = Inr k" using own [OF k] .
    show "\<forall>y\<in>set (rev pkgs). index ?lbls (pkg_label y) = Inr k \<longrightarrow> y = pkgs ! k"
    proof (intro ballI impI)
      fix y assume "y \<in> set (rev pkgs)" and y: "index ?lbls (pkg_label y) = Inr k"
      then obtain m where m: "m < ?n" "y = pkgs ! m" by (auto simp: in_set_conv_nth)
      with own [OF m(1)] y show "y = pkgs ! k" by simp
    qed
  qed
  have "st = map (\<lambda>p. Some (pkg_start p)) pkgs"
    by (rule nth_equalityI) (simp_all add: r(2) v f)
  moreover have "en = map (\<lambda>p. Some (pkg_end p)) pkgs"
    by (rule nth_equalityI) (simp_all add: r(3) v f)
  ultimately show ?thesis using r(1) by simp
qed

lemma place_dates_duplicate:
  assumes "i < j" "j < length pkgs" "py_eq (pkg_label (pkgs ! i)) (pkg_label (pkgs ! j))"
  shows "\<exists>st en. place_dates (map pkg_label pkgs) pkgs (replicate (length pkgs) None)
             (replicate (length pkgs) None) = Inr (st, en) \<and>
           length st = length pkgs \<and> length en = length pkgs \<and> st ! j = None \<and> en ! j = None"
proof -
  let ?lbls = "map pkg_label pkgs" and ?n = "length pkgs"
  have all: "\<forall>p\<in>set pkgs. \<exists>k. index ?lbls (pkg_label p) = Inr k"
  proof
    fix p assume "p \<in> set pkgs"
    then have "pkg_label p \<in> set ?lbls" by simp
    then show "\<exists>k. index ?lbls (pkg_label p) = Inr k"
      using py_eq_refl by (rule index_member)
  qed
  from place_dates_result [of "replicate ?n None" ?lbls "replicate ?n None" pkgs] all
  obtain st en where r: "place_dates ?lbls pkgs (replicate ?n None) (replicate ?n None) = Inr (st, en)"
    "length st = ?n" "length en = ?n"
    and v: "\<And>k. k < ?n \<Longrightarrow>
          st ! k = (case find (\<lambda>p. index ?lbls (pkg_label p) = Inr k) (rev pkgs) of
                      None \<Rightarrow> replicate ?n None ! k | Some p \<Rightarrow> Some (pkg_start p)) \<and>
          en ! k = (case find (\<lambda>p. index ?lbls (pkg_label p) = Inr k) (rev pkgs) of
                      None \<Rightarrow> replicate ?n None ! k | Some p \<Rightarrow> Some (pkg_end p))"
    by auto
  have "index ?lbls (pkg_label p) \<noteq> Inr j" for p
  proof
    assume "index ?lbls (pkg_label p) = Inr j"
    then have a: "py_eq (pkg_label (pkgs ! j)) (pkg_label p)"
      and b: "\<forall>k<j. \<not> py_eq (pkg_label (pkgs ! k)) (pkg_label p)"
      using assms(2) by (auto simp: index_Inr_iff)
    from py_eq_trans [OF assms(3) a] b assms(1) show False by blast
  qed
  then have "find (\<lambda>p. index ?lbls (pkg_label p) = Inr j) (rev pkgs) = None"
    by (auto simp: find_None_iff)
  with v [OF assms(2)] assms(2) have "st ! j = None" "en ! j = None" by simp_all
  with r show ?thesis by blast
qed

lemma compute_durations_Some:
  "compute_durations (zip (map (\<lambda>p. Some (pkg_start p)) pkgs) (map (\<lambda>p. Some (pkg_end p)) pkgs)) =
     Inr (map (\<lambda>p. sub_days (pkg_end p) (pkg_start p)) pkgs)"
  by (induction pkgs) simp_all

lemma ordinals_Some: "ordinals (map (\<lambda>p. Some (f p)) pkgs) = Inr (map (\<lambda>p. toordinal (f p)) pkgs)"
  by (induction pkgs) simp_all

lemma compute_durations_None:
  assumes "j < length st" "length en = length st" "st ! j = None"
  shows "compute_durations (zip st en) = Inl TypeError"
proof (cases "compute_durations (zip st en)")
  case (Inl e)
  then show ?thesis using compute_durations_Inl by blast
next
  case (Inr ds)
  from compute_durations_Inr [OF Inr, of j] assms show ?thesis by simp
qed

section \<open>Processing\<close>

lemma strptime_fields:
  assumes "strptime ev s = Inr d"
  shows "day d = 1 \<and> 1 \<le> month d \<and> month d \<le> 12 \<and> 1 \<le> year d"
  using strptime_Inr [OF assms]
proof (elim disjE exE conjE)
  fix c1 c2 a b c e
  assume tm: "two_digit_month c1 c2" and y: "1 \<le> year_of ev a b c e"
    and d: "d = \<lparr>year = year_of ev a b c e,
                 month = 10 * digit_val ev c1 + digit_val ev c2, day = 1\<rparr>"
  from two_digit_month_bounds [OF tm, of ev] y show ?thesis unfolding d by simp
next
  fix c1 a b c e
  assume c1: "c1 \<in> set (str ''123456789'')" and y: "1 \<le> year_of ev a b c e"
    and d: "d = \<lparr>year = year_of ev a b c e, month = digit_val ev c1, day = 1\<rparr>"
  from digit_val_nonzero [OF c1, of ev] y show ?thesis unfolding d by simp
qed

lemma Package_dates:
  assumes "Package ev r = Inr p"
  shows "day (pkg_start p) = 1 \<and> 1 \<le> month (pkg_start p) \<and> month (pkg_start p) \<le> 12 \<and>
         day (pkg_end p) = 1 \<and> 1 \<le> month (pkg_end p) \<and> month (pkg_end p) \<le> 12 \<and>
         \<not> dt_less (pkg_end p) (pkg_start p)"
proof -
  from Package_Inr [OF assms] obtain sv nv where
    "parse_date ev sv = Inr (pkg_start p)" "parse_date ev nv = Inr (pkg_end p)"
    and le: "\<not> dt_less (pkg_end p) (pkg_start p)" by blast
  then obtain s1 s2 where "strptime ev s1 = Inr (pkg_start p)" "strptime ev s2 = Inr (pkg_end p)"
    using parse_date_Inr by blast
  from strptime_fields [OF this(1)] strptime_fields [OF this(2)] le show ?thesis by simp
qed

lemma sub_days_calendar:
  assumes "day s = 1" "1 \<le> month s" "month s \<le> 12" "day e = 1" "1 \<le> month e" "month e \<le> 12"
    "\<not> dt_less e s"
  shows "sub_days e s = calendar_days s e \<and> 0 \<le> sub_days e s"
proof -
  have le: "12 * year s + month s \<le> 12 * year e + month e"
    using assms unfolding dt_less_def by linarith
  define k where "k = nat (12 * year e + month e - (12 * year s + month s))"
  have k: "12 * year e + month e - (12 * year s + month s) = int k"
    using le by (simp add: k_def)
  from months_span [OF assms(2,3,5,6) k]
  have "sub_days e s = days_of_months (year s) (month s) k"
    using assms(1,4) by (simp add: sub_days_def toordinal_def)
  then show ?thesis
    using days_of_months_nonneg [of "year s" "month s" k] by (simp add: calendar_days_def k_def)
qed

lemma make_packages_built:
  assumes "make_packages ev rs = Inr ps" "p \<in> set ps"
  shows "\<exists>r. Package ev r = Inr p"
  using assms
proof (induction rs arbitrary: ps)
  case Nil
  then show ?case by simp
next
  case (Cons r rs)
  from Cons.prems(1) obtain q qs where "Package ev r = Inr q" "make_packages ev rs = Inr qs"
    "ps = q # qs"
    by (auto simp: then_do_eq_Inr)
  with Cons.IH [of qs] Cons.prems(2) show ?case by auto
qed

lemma loadData_packages:
  assumes "loadData ev file = Inr g" "p \<in> set (packages g)"
  shows "\<exists>r. Package ev r = Inr p"
  using assms unfolding loadData_def
  by (auto simp: then_do_eq_Inr dest: make_packages_built)

lemma procData_distinct:
  assumes "labels gd = map pkg_label (packages gd)" "py_distinct (labels gd)"
  shows "procData gd =
           Inr \<lparr>dataFile = dataFile gd, title = title gd, packages = packages gd,
                labels = labels gd, milestones = milestones gd, xlabel = xlabel gd,
                xticks = xticks gd, nPackages = length (packages gd),
                start = map (\<lambda>p. toordinal (pkg_start p)) (packages gd),
                end' = map (\<lambda>p. toordinal (pkg_end p)) (packages gd),
                durations = map (\<lambda>p. sub_days (pkg_end p) (pkg_start p)) (packages gd),
                yPos = arange_down (length (packages gd))\<rparr>"
proof -
  have pd: "py_distinct (map pkg_label (packages gd))" using assms by simp
  show ?thesis
    unfolding procData_def assms(1)
    by (simp add: Let_def place_dates_distinct [OF pd] compute_durations_Some ordinals_Some)
qed

lemma procData_duplicate:
  assumes "labels gd = map pkg_label (packages gd)" "i < j" "j < length (packages gd)"
    "py_eq (pkg_label (packages gd ! i)) (pkg_label (packages gd ! j))"
  shows "procData gd = Inl TypeError"
proof -
  from place_dates_duplicate [OF assms(2-4)] obtain st en where
    r: "place_dates (map pkg_label (packages gd)) (packages gd)
          (replicate (length (packages gd)) None) (replicate (length (packages gd)) None) =
        Inr (st, en)"
    and l: "length st = length (packages gd)" "length en = length (packages gd)"
    and n: "st ! j = None" by blast
  have "compute_durations (zip st en) = Inl TypeError"
    using assms(3) l n by (intro compute_durations_None [of j]) simp_all
  then show ?thesis unfolding procData_def assms(1) using r by (simp add: Let_def)
qed

lemma procData_Inr:
  assumes "labels gd = map pkg_label (packages gd)" "procData gd = Inr g"
  shows "py_distinct (labels gd)"
proof (rule ccontr)
  assume "\<not> py_distinct (labels gd)"
  then obtain i j where "i < j" "j < length (packages gd)"
    "py_eq (pkg_label (packages gd ! i)) (pkg_label (packages gd ! j))"
    unfolding py_distinct_iff assms(1) by auto
  from procData_duplicate [OF assms(1) this] assms(2) show False by simp
qed

lemma Gantt_Inr:
  assumes "Gantt ev file = Inr g"
  shows "py_distinct (labels g) \<and> labels g = map pkg_label (packages g) \<and>
         (\<forall>p\<in>set (packages g). \<exists>r. Package ev r = Inr p) \<and>
         build_milestones [] (packages g) = Inr (milestones g) \<and>
         nPackages g = length (packages g) \<and>
         start g = map (\<lambda>p. toordinal (pkg_start p)) (packages g) \<and>
         end' g = map (\<lambda>p. toordinal (pkg_end p)) (packages g) \<and>
         durations g = map (\<lambda>p. sub_days (pkg_end p) (pkg_start p)) (packages g) \<and>
         yPos g = arange_down (length (packages g))"
proof -
  from assms obtain gd where ld: "loadData ev file = Inr gd" and pr: "procData gd = Inr g"
    unfolding Gantt_def by (auto simp: then_do_eq_Inr)
  note l = loadData_Inr [OF ld]
  from l have lb: "labels gd = map pkg_label (packages gd)" by simp
  have pd: "py_distinct (labels gd)" using procData_Inr [OF lb pr] .
  from procData_distinct [OF lb pd] pr have g: "g =
           \<lparr>dataFile = dataFile gd, title = title gd, packages = packages gd,
            labels = labels gd, milestones = milestones gd, xlabel = xlabel gd,
            xticks = xticks gd, nPackages = length (packages gd),
            start = map (\<lambda>p. toordinal (pkg_start p)) (packages gd),
            end' = map (\<lambda>p. toordinal (pkg_end p)) (packages gd),
            durations = map (\<lambda>p. sub_days (pkg_end p) (pkg_start p)) (packages gd),
            yPos = arange_down (length (packages gd))\<rparr>" by simp
  show ?thesis
    unfolding g using l pd loadData_packages [OF ld] by simp
qed

lemma arange_down_eq: "arange_down n = map (\<lambda>i. int n - int i) [0..<n]"
proof (rule nth_equalityI)
  have len: "length [1..<Suc n] = n" by (simp only: length_upt)
  show "length (arange_down n) = length (map (\<lambda>i. int n - int i) [0..<n])"
    unfolding arange_down_def by (simp only: length_map length_rev len) simp
  fix i assume "i < length (arange_down n)"
  then have i: "i < n"
    unfolding arange_down_def by (simp only: length_map length_rev len)
  then have a: "i < length [1..<Suc n]" by (simp only: len)
  have "rev [1..<Suc n] ! i = [1..<Suc n] ! (length [1..<Suc n] - Suc i)"
    using a by (rule rev_nth)
  also have "\<dots> = [1..<Suc n] ! (n - Suc i)" by (simp only: len)
  also have "\<dots> = 1 + (n - Suc i)" by (rule nth_upt) (use i in arith)
  finally have r: "rev [1..<Suc n] ! i = n - i" using i by simp
  have "arange_down n ! i = int (rev [1..<Suc n] ! i)"
    unfolding arange_down_def using a by (intro nth_map) (simp only: length_rev)
  then show "arange_down n ! i = map (\<lambda>i. int n - int i) [0..<n] ! i"
    using i by (simp only: r) simp
qed

section \<open>The sample documents\<close>

lemma Package_pkg_A_any: "Package ev pkg_A = Inr package_A"
proof -
  have s: "parse_date ev (JStr (str ''01-2021'')) = Inr \<lparr>year = 2021, month = 1, day = 1\<rparr>"
    by (simp only: parse_date_JStr strptime_01_2021) simp
  have e: "parse_date ev (JStr (str ''03-2021'')) = Inr \<lparr>year = 2021, month = 3, day = 1\<rparr>"
    by (simp only: parse_date_JStr strptime_03_2021) simp
  have k: "subscript pkg_A ''label'' = Inr (JStr (str ''A''))"
    "subscript pkg_A ''start'' = Inr (JStr (str ''01-2021''))"
    "subscript pkg_A ''end'' = Inr (JStr (str ''03-2021''))"
    "pkg_milestones_of ev pkg_A = Inr []"
    "subscript_or pkg_A ''color'' DEFCOLOR = Inr (JStr (str ''#32AEE0''))"
    "subscript_or pkg_A ''legend'' JNull = Inr JNull"
    by code_simp+
  show ?thesis
    unfolding Package_def by (simp only: k s e then_do_Inr) (simp add: dt_less_def package_A_def)
qed

text \<open>
  The document of the end-to-end scenario gives the same chart whatever the file is called
  and whatever digits the environment knows.
\<close>

lemma Gantt_doc_A_any:
  assumes "files ev file = Inr txt" "json_loads ev txt = Inr doc_A"
  shows "Gantt ev file = Inr (gantt_A\<lparr>dataFile := file\<rparr>)"
proof -
  have l: "load_json ev file = Inr doc_A" using assms by (simp add: load_json_def)
  have k: "subscript doc_A ''title'' = Inr (JStr (str ''T''))"
    "subscript doc_A ''packages'' = Inr (JArr [pkg_A])"
    "py_iter (JArr [pkg_A]) = Inr [pkg_A]"
    "collect_labels [pkg_A] = Inr [JStr (str ''A'')]"
    "build_milestones [] [package_A] = Inr [(JStr (str ''A''), [])]"
    "subscript_or doc_A ''xlabel'' (JStr []) = Inr (JStr [])"
    "subscript_or doc_A ''xticks'' (JArr []) = Inr (JArr [])"
    by code_simp+
  have m: "make_packages ev [pkg_A] = Inr [package_A]"
    by (simp add: Package_pkg_A_any)
  have ld: "loadData ev file = Inr (data_A\<lparr>dataFile := file\<rparr>)"
    unfolding loadData_def by (simp only: l k m then_do_Inr) (simp add: data_A_def)
  have p: "procData (data_A\<lparr>dataFile := file\<rparr>) = Inr (gantt_A\<lparr>dataFile := file\<rparr>)"
    by code_simp
  show ?thesis unfolding Gantt_def by (simp only: ld p then_do_Inr)
qed

lemma loadData_doc_A: "loadData (env_with sample doc_A) sample = Inr data_A"
  by code_simp

lemma Gantt_doc_A: "Gantt (env_with sample doc_A) sample = Inr gantt_A"
  by code_simp

lemma Gantt_doc_AB: "Gantt (env_with sample doc_AB) sample = Inr gantt_AB"
  by code_simp

lemma loadData_doc_AB: "loadData (env_with sample doc_AB) sample = Inr data_AB"
  by code_simp

lemma loadData_doc_AA: "loadData (env_with sample doc_AA) sample = Inr data_AA"
  by code_simp

lemma Gantt_doc_empty: "Gantt (env_with sample doc_empty) sample = Inr gantt_empty"
  by code_simp

lemma render_gantt_AB: "render (env_with sample doc_AB) gantt_AB = Inr plot_AB"
  by code_simp

section \<open>Slots and durations\<close>

text \<open>
  C5. When the chart of a document is constructed, the slots are the integers from the
  number of packages down to 1 in document order: the package at index \<open>i\<close> of \<open>N\<close> has slot
  \<open>N - i\<close>, the first one the topmost row. The chart of a loaded document is constructed
  when its labels are pairwise different.
\<close>

theorem slots_descending:
  "(loadData ev file = Inr gd \<and> py_distinct (labels gd) \<longrightarrow> (\<exists>g'. Gantt ev file = Inr g')) \<and>
   (Gantt ev file = Inr g \<longrightarrow>
      nPackages g = length (packages g) \<and>
      yPos g = map (\<lambda>i. int (length (packages g)) - int i) [0..<length (packages g)])"
proof (intro conjI impI)
  assume a: "loadData ev file = Inr gd \<and> py_distinct (labels gd)"
  then have "labels gd = map pkg_label (packages gd)" using loadData_Inr by blast
  from procData_distinct [OF this] a show "\<exists>g'. Gantt ev file = Inr g'"
    by (simp add: Gantt_def)
next
  assume "Gantt ev file = Inr g"
  from Gantt_Inr [OF this] show "nPackages g = length (packages g)" by simp
next
  assume "Gantt ev file = Inr g"
  from Gantt_Inr [OF this] show
    "yPos g = map (\<lambda>i. int (length (packages g)) - int i) [0..<length (packages g)]"
    by (simp add: arange_down_eq)
qed

theorem slots_descending_witness:
  "loadData (env_with sample doc_AB) sample = Inr data_AB \<and>
   py_distinct (labels data_AB) \<and>
   Gantt (env_with sample doc_AB) sample = Inr gantt_AB \<and>
   nPackages gantt_AB = 2 \<and> yPos gantt_AB = [2, 1]"
proof -
  have h: "loadData (env_with sample doc_AB) sample = Inr data_AB"
    "py_distinct (labels data_AB)" "Gantt (env_with sample doc_AB) sample = Inr gantt_AB"
    by code_simp+
  from slots_descending [of "env_with sample doc_AB" sample data_AB gantt_AB] h
  have "nPackages gantt_AB = length (packages gantt_AB) \<and>
        yPos gantt_AB =
          map (\<lambda>i. int (length (packages gantt_AB)) - int i) [0..<length (packages gantt_AB)]"
    by blast
  then have "nPackages gantt_AB = 2 \<and> yPos gantt_AB = [2, 1]"
    by (simp add: gantt_AB_def)
  with h show ?thesis by blast
qed

text \<open>
  C6. Every package that is constructed ends no earlier than it starts, and the days from
  its start to its end, as \<^verbatim>\<open>_procData\<close> computes them, are the calendar days from the first
  day of the start month to the first day of the end month, and not negative. The chart of
  a loaded document with pairwise different labels is constructed, with the packages of
  the document and one duration for each, the difference of the ordinals of its end and its
  start; in every constructed chart the duration at the index of a package is that
  difference for that package, which was constructed from a record. For the
  document with the single package from \<^verbatim>\<open>01-2021\<close> to \<^verbatim>\<open>03-2021\<close> the chart is constructed and
  the duration is 59 days.
\<close>

theorem duration_calendar_days:
  "(Package ev r = Inr p \<longrightarrow>
      sub_days (pkg_end p) (pkg_start p) = toordinal (pkg_end p) - toordinal (pkg_start p) \<and>
      sub_days (pkg_end p) (pkg_start p) = calendar_days (pkg_start p) (pkg_end p) \<and>
      0 \<le> sub_days (pkg_end p) (pkg_start p)) \<and>
   (loadData ev file = Inr gd \<and> py_distinct (labels gd) \<longrightarrow>
      (\<exists>g'. Gantt ev file = Inr g' \<and> packages g' = packages gd \<and>
            durations g' =
              map (\<lambda>q. toordinal (pkg_end q) - toordinal (pkg_start q)) (packages gd))) \<and>
   (Gantt ev file = Inr g \<and> i < length (packages g) \<longrightarrow>
      length (durations g) = length (packages g) \<and>
      (\<exists>r'. Package ev r' = Inr (packages g ! i)) \<and>
      durations g ! i =
        toordinal (pkg_end (packages g ! i)) - toordinal (pkg_start (packages g ! i)) \<and>
      durations g ! i = calendar_days (pkg_start (packages g ! i)) (pkg_end (packages g ! i)) \<and>
      0 \<le> durations g ! i) \<and>
   (files ev file = Inr txt \<and> json_loads ev txt = Inr doc_A \<longrightarrow>
      (\<exists>g'. Gantt ev file = Inr g' \<and>
            map pkg_start (packages g') = [\<lparr>year = 2021, month = 1, day = 1\<rparr>] \<and>
            map pkg_end (packages g') = [\<lparr>year = 2021, month = 3, day = 1\<rparr>] \<and>
            durations g' = [59]))"
proof -
  have pk: "sub_days (pkg_end q) (pkg_start q) = toordinal (pkg_end q) - toordinal (pkg_start q) \<and>
            sub_days (pkg_end q) (pkg_start q) = calendar_days (pkg_start q) (pkg_end q) \<and>
            0 \<le> sub_days (pkg_end q) (pkg_start q)"
    if "Package ev r' = Inr q" for r' q
  proof -
    note v = Package_dates [OF that]
    have "sub_days (pkg_end q) (pkg_start q) = calendar_days (pkg_start q) (pkg_end q) \<and>
          0 \<le> sub_days (pkg_end q) (pkg_start q)"
      using v by (intro sub_days_calendar) simp_all
    then show ?thesis by (simp add: sub_days_def)
  qed
  have tot: "\<exists>g'. Gantt ev file = Inr g' \<and> packages g' = packages gd \<and>
               durations g' =
                 map (\<lambda>q. toordinal (pkg_end q) - toordinal (pkg_start q)) (packages gd)"
    if a: "loadData ev file = Inr gd" "py_distinct (labels gd)"
  proof -
    from a(1) have "labels gd = map pkg_label (packages gd)" using loadData_Inr by blast
    from procData_distinct [OF this a(2)] a(1) show ?thesis
      by (simp add: Gantt_def sub_days_def)
  qed
  have ch: "length (durations g) = length (packages g) \<and>
            (\<exists>r'. Package ev r' = Inr (packages g ! i)) \<and>
            durations g ! i =
              toordinal (pkg_end (packages g ! i)) - toordinal (pkg_start (packages g ! i)) \<and>
            durations g ! i =
              calendar_days (pkg_start (packages g ! i)) (pkg_end (packages g ! i)) \<and>
            0 \<le> durations g ! i"
    if a: "Gantt ev file = Inr g" "i < length (packages g)"
  proof -
    note G = Gantt_Inr [OF a(1)]
    have l: "length (durations g) = length (packages g)" using G by simp
    have d: "durations g ! i = sub_days (pkg_end (packages g ! i)) (pkg_start (packages g ! i))"
      using G a(2) by simp
    from G a(2) obtain r' where r': "Package ev r' = Inr (packages g ! i)"
      using nth_mem by blast
    from pk [OF r'] l d r' show ?thesis by auto
  qed
  have ex: "\<exists>g'. Gantt ev file = Inr g' \<and>
              map pkg_start (packages g') = [\<lparr>year = 2021, month = 1, day = 1\<rparr>] \<and>
              map pkg_end (packages g') = [\<lparr>year = 2021, month = 3, day = 1\<rparr>] \<and>
              durations g' = [59]"
    if a: "files ev file = Inr txt" "json_loads ev txt = Inr doc_A"
    using Gantt_doc_A_any [OF a] by (simp add: gantt_A_def package_A_def)
  show ?thesis using pk tot ch ex by blast
qed

theorem duration_calendar_days_witness:
  "Package (env_with sample doc_A) pkg_A = Inr package_A \<and>
   sub_days (pkg_end package_A) (pkg_start package_A) = 59 \<and>
   loadData (env_with sample doc_A) sample = Inr data_A \<and> py_distinct (labels data_A) \<and>
   Gantt (env_with sample doc_A) sample = Inr gantt_A \<and>
   files (env_with sample doc_A) sample = Inr (str ''doc'') \<and>
   json_loads (env_with sample doc_A) (str ''doc'') = Inr doc_A \<and>
   packages gantt_A = [package_A] \<and> durations gantt_A = [59] \<and>
   durations gantt_A ! 0 = 59 \<and>
   toordinal \<lparr>year = 2021, month = 3, day = 1\<rparr> - toordinal \<lparr>year = 2021, month = 1, day = 1\<rparr> = 59 \<and>
   calendar_days \<lparr>year = 2021, month = 1, day = 1\<rparr> \<lparr>year = 2021, month = 3, day = 1\<rparr> = 59"
proof -
  let ?E = "env_with sample doc_A"
  have h: "Package ?E pkg_A = Inr package_A" "loadData ?E sample = Inr data_A"
    "py_distinct (labels data_A)" "Gantt ?E sample = Inr gantt_A"
    "0 < length (packages gantt_A)" "files ?E sample = Inr (str ''doc'')"
    "json_loads ?E (str ''doc'') = Inr doc_A"
    by code_simp+
  have v: "packages gantt_A = [package_A]" "durations gantt_A = [59]"
    "packages gantt_A ! 0 = package_A" "durations gantt_A ! 0 = 59"
    "pkg_start package_A = \<lparr>year = 2021, month = 1, day = 1\<rparr>"
    "pkg_end package_A = \<lparr>year = 2021, month = 3, day = 1\<rparr>"
    by (simp_all add: gantt_A_def package_A_def)
  from duration_calendar_days [of ?E pkg_A package_A sample data_A gantt_A 0 "str ''doc''"] h
  have "sub_days (pkg_end package_A) (pkg_start package_A) =
          calendar_days (pkg_start package_A) (pkg_end package_A)"
    "durations gantt_A ! 0 =
       toordinal (pkg_end (packages gantt_A ! 0)) - toordinal (pkg_start (packages gantt_A ! 0))"
    "durations gantt_A ! 0 =
       calendar_days (pkg_start (packages gantt_A ! 0)) (pkg_end (packages gantt_A ! 0))"
    by blast+
  with h v show ?thesis by simp
qed

section \<open>Duplicate labels and empty documents\<close>

lemma index_py_eq:
  assumes "py_eq x y"
  shows "index xs x = index xs y"
proof (induction xs)
  case Nil
  then show ?case by simp
next
  case (Cons z zs)
  have "py_eq z x \<longleftrightarrow> py_eq z y"
    using assms py_eq_trans py_eq_sym by blast
  with Cons show ?case by simp
qed

text \<open>
  C10. In a loaded document with two packages of the same label, the lookup of the label
  gives for both the same index, no later than the first of the two; the slot of the later
  one keeps \<^verbatim>\<open>None\<close> for start and end; the durations fail with \<^verbatim>\<open>TypeError\<close>, and the
  chart is not constructed.
\<close>

theorem duplicate_labels_fail:
  assumes "loadData ev file = Inr gd" "i < j" "j < length (packages gd)"
    "py_eq (pkg_label (packages gd ! i)) (pkg_label (packages gd ! j))"
  shows "(\<exists>k. k \<le> i \<and> index (labels gd) (pkg_label (packages gd ! i)) = Inr k \<and>
              index (labels gd) (pkg_label (packages gd ! j)) = Inr k) \<and>
         (\<exists>st en. place_dates (labels gd) (packages gd) (replicate (length (labels gd)) None)
                     (replicate (length (labels gd)) None) = Inr (st, en) \<and>
                   st ! j = None \<and> en ! j = None) \<and>
         procData gd = Inl TypeError \<and> Gantt ev file = Inl TypeError"
proof (intro conjI)
  from loadData_Inr [OF assms(1)] have lb: "labels gd = map pkg_label (packages gd)" by simp
  have i: "i < length (labels gd)" using assms(2,3) lb by simp
  have "pkg_label (packages gd ! i) \<in> set (labels gd)" using i lb by simp
  then obtain k where k: "index (labels gd) (pkg_label (packages gd ! i)) = Inr k"
    using py_eq_refl index_member by blast
  have "k \<le> i"
  proof (rule ccontr)
    assume "\<not> k \<le> i"
    then have "i < k" by simp
    moreover from k have "\<forall>m<k. \<not> py_eq (labels gd ! m) (pkg_label (packages gd ! i))"
      by (simp add: index_Inr_iff)
    ultimately have "\<not> py_eq (labels gd ! i) (pkg_label (packages gd ! i))" by blast
    then show False using i lb by simp
  qed
  with k index_py_eq [OF assms(4), of "labels gd"]
  show "\<exists>k. k \<le> i \<and> index (labels gd) (pkg_label (packages gd ! i)) = Inr k \<and>
            index (labels gd) (pkg_label (packages gd ! j)) = Inr k" by auto
  from place_dates_duplicate [OF assms(2-4)]
  show "\<exists>st en. place_dates (labels gd) (packages gd) (replicate (length (labels gd)) None)
                     (replicate (length (labels gd)) None) = Inr (st, en) \<and>
                   st ! j = None \<and> en ! j = None"
    unfolding lb by auto
  show p: "procData gd = Inl TypeError" using procData_duplicate [OF lb assms(2-4)] .
  show "Gantt ev file = Inl TypeError" using assms(1) p by (simp add: Gantt_def)
qed

theorem duplicate_labels_fail_witness:
  "loadData (env_with sample doc_AA) sample = Inr data_AA \<and>
   index (labels data_AA) (pkg_label (packages data_AA ! 1)) = Inr 0 \<and>
   procData data_AA = Inl TypeError \<and>
   Gantt (env_with sample doc_AA) sample = Inl TypeError"
proof -
  have "(0::nat) < 1" "1 < length (packages data_AA)"
    "py_eq (pkg_label (packages data_AA ! 0)) (pkg_label (packages data_AA ! 1))"
    by (simp_all add: data_AA_def)
  from duplicate_labels_fail [OF loadData_doc_AA this] show ?thesis
    by (auto simp: loadData_doc_AA)
qed

text \<open>
  C9. The chart of a document without packages is constructed, and formatting its axes
  fails: \<^verbatim>\<open>min\<close> of the empty list of start ordinals raises \<^verbatim>\<open>ValueError\<close>, so rendering
  fails; a chart that renders has at least one package.
\<close>

theorem format_fails_without_packages:
  assumes "Gantt ev file = Inr g"
  shows "(packages g = [] \<longrightarrow>
           format ev g p = Inl (ValueError (str ''min() arg is an empty sequence'')) \<and>
           render ev g = Inl (ValueError (str ''min() arg is an empty sequence''))) \<and>
         (render ev g = Inr pl \<longrightarrow> packages g \<noteq> [])"
proof -
  from Gantt_Inr [OF assms] have s: "start g = map (\<lambda>p. toordinal (pkg_start p)) (packages g)"
    by simp
  have e: "format ev g q = Inl (ValueError (str ''min() arg is an empty sequence''))"
    if "packages g = []" for q
    using that s by (simp add: format_def)
  then show ?thesis by (auto simp: render_def)
qed

theorem format_fails_without_packages_witness:
  "Gantt (env_with sample doc_empty) sample = Inr gantt_empty \<and>
   packages gantt_empty = [] \<and>
   render (env_with sample doc_empty) gantt_empty =
     Inl (ValueError (str ''min() arg is an empty sequence'')) \<and>
   Gantt (env_with sample doc_AB) sample = Inr gantt_AB \<and>
   render (env_with sample doc_AB) gantt_AB = Inr plot_AB \<and> packages gantt_AB \<noteq> []"
  using format_fails_without_packages [OF Gantt_doc_empty]
    format_fails_without_packages [OF Gantt_doc_AB, of _ plot_AB]
  by (simp add: Gantt_doc_empty Gantt_doc_AB render_gantt_AB gantt_empty_def)

section \<open>The milestones map\<close>

lemma dict_set_new:
  "\<forall>kv\<in>set d. \<not> py_eq (fst kv) k \<Longrightarrow> dict_set d k v = d @ [(k, v)]"
  by (induction d) auto

lemma py_distinct_append:
  "py_distinct (xs @ y # ys) \<Longrightarrow> x \<in> set xs \<Longrightarrow> \<not> py_eq x y"
  by (induction xs) (auto simp: list_all_iff)

lemma build_milestones_distinct:
  assumes "build_milestones d ps = Inr ms" "py_distinct (map fst d @ map pkg_label ps)"
  shows "ms = d @ map (\<lambda>p. (pkg_label p, pkg_milestones p)) ps"
  using assms
proof (induction ps arbitrary: d)
  case Nil
  then show ?case by simp
next
  case (Cons p ps)
  let ?d = "d @ [(pkg_label p, pkg_milestones p)]"
  have "\<forall>kv\<in>set d. \<not> py_eq (fst kv) (pkg_label p)"
    using py_distinct_append [of "map fst d" "pkg_label p" "map pkg_label ps"] Cons.prems(2)
    by auto
  then have ds: "dict_set d (pkg_label p) (pkg_milestones p) = ?d" by (rule dict_set_new)
  from Cons.prems(1) have "build_milestones ?d ps = Inr ms"
    by (auto simp: then_do_eq_Inr setitem_def ds split: if_splits)
  moreover have "py_distinct (map fst ?d @ map pkg_label ps)" using Cons.prems(2) by simp
  ultimately have "ms = ?d @ map (\<lambda>p. (pkg_label p, pkg_milestones p)) ps" by (rule Cons.IH)
  then show ?case by simp
qed

text \<open>
  C1, as the program has it. In a constructed chart the milestones map has one entry for
  every package, in document order: the package's list of milestones, which is the empty
  list for a package that declares none. The map of a document with a package is not
  empty, whether or not its packages have milestones.
\<close>

theorem milestones_entry_for_every_package:
  assumes "Gantt ev file = Inr g"
  shows "milestones g = map (\<lambda>p. (pkg_label p, pkg_milestones p)) (packages g)"
proof -
  note G = Gantt_Inr [OF assms]
  from G have "build_milestones [] (packages g) = Inr (milestones g)" by simp
  moreover from G have pd: "py_distinct (labels g)"
    and lb: "labels g = map pkg_label (packages g)" by blast+
  from pd [unfolded lb] have "py_distinct (map fst [] @ map pkg_label (packages g))"
    by simp
  ultimately have "milestones g = [] @ map (\<lambda>p. (pkg_label p, pkg_milestones p)) (packages g)"
    by (rule build_milestones_distinct)
  then show ?thesis by simp
qed

theorem milestones_entry_for_every_package_witness:
  "Gantt (env_with sample doc_A) sample = Inr gantt_A \<and>
   subscript pkg_A ''milestones'' = Inl (KeyError ''milestones'') \<and>
   milestones gantt_A = [(JStr (str ''A''), [])]"
proof -
  have k: "subscript pkg_A ''milestones'' = Inl (KeyError ''milestones'')" by code_simp
  from milestones_entry_for_every_package [OF Gantt_doc_A]
  have "milestones gantt_A = [(JStr (str ''A''), [])]"
    by (simp add: gantt_A_def package_A_def)
  with k Gantt_doc_A show ?thesis by simp
qed

section \<open>Colour and legend\<close>

lemma format_bar_labels: "format ev g p = Inr p' \<Longrightarrow> bar_labels p' = bar_labels p"
  by (auto simp: format_def Let_def then_do_eq_Inr split: if_splits)

lemma add_milestones_bar_labels: "add_milestones g p = Inr p' \<Longrightarrow> bar_labels p' = bar_labels p"
  by (auto simp: add_milestones_def then_do_eq_Inr split: if_splits)

lemma label_bars_untouched:
  assumes "label_bars lbls ps bl cnt = Inr (bl', cnt')"
    "\<forall>p\<in>set ps. truthy (pkg_legend p) \<longrightarrow> index lbls (pkg_label p) \<noteq> Inr k"
  shows "length bl' = length bl \<and> bl' ! k = bl ! k"
  using assms
proof (induction ps arbitrary: bl cnt)
  case Nil
  then show ?case by simp
next
  case (Cons p ps)
  show ?case
  proof (cases "truthy (pkg_legend p)")
    case False
    with Cons.prems Cons.IH [of bl cnt] show ?thesis by simp
  next
    case True
    with Cons.prems(1) obtain idx where idx: "index lbls (pkg_label p) = Inr idx"
      "idx < length bl"
      and r: "label_bars lbls ps (bl[idx := Some (pkg_legend p)]) (cnt + 1) = Inr (bl', cnt')"
      by (auto simp: then_do_eq_Inr list_set_def split: if_splits)
    from True Cons.prems(2) idx(1) have "idx \<noteq> k" by auto
    with Cons.IH [OF r] Cons.prems(2) show ?thesis by simp
  qed
qed

text \<open>
  C8. A package record without the key \<^verbatim>\<open>color\<close> is constructed with the default colour
  \<^verbatim>\<open>#32AEE0\<close>, one without the key \<^verbatim>\<open>legend\<close> with the legend \<^verbatim>\<open>None\<close>; and in a rendered
  chart the bar of a package whose legend is \<^verbatim>\<open>None\<close> has no label set, so it has no
  legend entry.
\<close>

theorem default_color_and_no_legend:
  "(Package ev (JObj kvs) = Inr p \<and> map_of kvs (str ''color'') = None \<longrightarrow>
      pkg_color p = JStr (str ''#32AEE0'')) \<and>
   (Package ev (JObj kvs) = Inr p \<and> map_of kvs (str ''legend'') = None \<longrightarrow>
      pkg_legend p = JNull) \<and>
   (Gantt ev file = Inr g \<and> render ev g = Inr pl \<and> i < length (packages g) \<and>
    pkg_legend (packages g ! i) = JNull \<longrightarrow>
      length (bar_labels pl) = length (packages g) \<and> bar_labels pl ! i = None)"
proof -
  have c: "pkg_color p = JStr (str ''#32AEE0'')"
    if "Package ev (JObj kvs) = Inr p" "map_of kvs (str ''color'') = None"
    using Package_Inr [OF that(1)] that(2) by (simp add: subscript_or_def DEFCOLOR_def)
  have n: "pkg_legend p = JNull"
    if "Package ev (JObj kvs) = Inr p" "map_of kvs (str ''legend'') = None"
    using Package_Inr [OF that(1)] that(2) by (simp add: subscript_or_def)
  have r: "length (bar_labels pl) = length (packages g) \<and> bar_labels pl ! i = None"
    if a: "Gantt ev file = Inr g" "render ev g = Inr pl" "i < length (packages g)"
      "pkg_legend (packages g ! i) = JNull"
  proof -
    note G = Gantt_Inr [OF a(1)]
    from G have pd: "py_distinct (labels g)"
      and lb: "labels g = map pkg_label (packages g)"
      and yp: "yPos g = arange_down (length (packages g))" by blast+
    from a(2) obtain p1 p2 where f: "format ev g (barh g) = Inr p1"
      and m: "add_milestones g p1 = Inr p2" and l: "add_legend g p2 = Inr pl"
      by (auto simp: render_def then_do_eq_Inr)
    have b: "bar_labels p2 = replicate (length (packages g)) None"
      using format_bar_labels [OF f] add_milestones_bar_labels [OF m]
      by (simp add: barh_def yp arange_down_eq)
    from l obtain cnt where bl: "label_bars (labels g) (packages g) (bar_labels p2) 0 =
        Inr (bar_labels pl, cnt)"
      by (auto simp: add_legend_def then_do_eq_Inr)
    have "\<forall>q\<in>set (packages g). truthy (pkg_legend q) \<longrightarrow>
            index (labels g) (pkg_label q) \<noteq> Inr i"
    proof (intro ballI impI)
      fix q assume "q \<in> set (packages g)" and t: "truthy (pkg_legend q)"
      then obtain m where m: "m < length (packages g)" "q = packages g ! m"
        by (auto simp: in_set_conv_nth)
      from m lb have "m < length (labels g)" "labels g ! m = pkg_label q" by simp_all
      with index_own_label [OF pd, of m] have "index (labels g) (pkg_label q) = Inr m"
        by simp
      moreover from t a(4) m have "m \<noteq> i" by auto
      ultimately show "index (labels g) (pkg_label q) \<noteq> Inr i" by simp
    qed
    from label_bars_untouched [OF bl this] b a(3) show ?thesis by simp
  qed
  show ?thesis using c n r by blast
qed

theorem default_color_and_no_legend_witness:
  "Package (env_with sample doc_AB) pkg_A = Inr package_A \<and>
   pkg_color package_A = JStr (str ''#32AEE0'') \<and>
   pkg_legend package_A = JNull \<and>
   Gantt (env_with sample doc_AB) sample = Inr gantt_AB \<and>
   render (env_with sample doc_AB) gantt_AB = Inr plot_AB \<and>
   pkg_legend (packages gantt_AB ! 0) = JNull \<and>
   bar_labels plot_AB ! 0 = None"
proof -
  let ?E = "env_with sample doc_AB"
  let ?kvs = "[(str ''label'', JStr (str ''A'')), (str ''start'', JStr (str ''01-2021'')),
               (str ''end'', JStr (str ''03-2021''))]"
  have a: "Package ?E (JObj ?kvs) = Inr package_A"
    using Package_pkg_A_any [of ?E] by (simp only: pkg_A_def)
  have b: "map_of ?kvs (str ''color'') = None" "map_of ?kvs (str ''legend'') = None"
    by code_simp+
  have c: "0 < length (packages gantt_AB)" "pkg_legend (packages gantt_AB ! 0) = JNull"
    by (simp_all add: gantt_AB_def package_A_def)
  from default_color_and_no_legend [of ?E ?kvs package_A sample gantt_AB plot_AB 0]
    a b c Gantt_doc_AB render_gantt_AB
  have "pkg_color package_A = JStr (str ''#32AEE0'') \<and> pkg_legend package_A = JNull \<and>
        bar_labels plot_AB ! 0 = None" by blast
  with Package_pkg_A_any [of ?E] Gantt_doc_AB render_gantt_AB c(2) show ?thesis by blast
qed

end
